theory Spec2Isabelle
  imports Main "HOL-Library.Monad_Syntax"
begin

section \<open>The asynchronous pipeline of the RealSense SDK (pipeline_async_impl.cpp)\<close>

text \<open>
  The pipeline object is modelled by explicit state passing: every member function takes
  the members of the class as a record and returns the status it reports, the updated
  record, and the list of calls it made on its collaborators (device manager, modules,
  samples consumers), in the order it made them. The collaborators themselves are not
  part of the translation unit: what they answer is a parameter of the model.
\<close>

subsection \<open>Status codes\<close>

datatype status =
    status_no_error
  | status_item_unavailable
  | status_invalid_argument
  | status_handle_invalid
  | status_device_failed
  | status_data_unavailable
  | status_data_not_initialized
  | status_match_not_found
  | status_invalid_state
  | status_param_inplace
  | status_value_out_of_range

text \<open>
  Modelled from the spec: the header that declares the status enumeration
  (rs/core/status.h) is not among the sources. The error taxonomy of the spec makes
  invalid-state, invalid-argument, not-found, no-match and device-failure errors; the code
  recognises an error by \<^verbatim>\<open>status < status_no_error\<close>. The numbers follow the
  SDK's convention (zero for success, negative for errors, positive for warnings); the
  code modelled here reads nothing but their sign.
\<close>

fun status_value :: "status \<Rightarrow> int" where
  "status_value status_no_error = 0"
| "status_value status_item_unavailable = - 3"
| "status_value status_invalid_argument = - 5"
| "status_value status_handle_invalid = - 101"
| "status_value status_device_failed = - 201"
| "status_value status_data_unavailable = - 501"
| "status_value status_data_not_initialized = - 502"
| "status_value status_match_not_found = - 601"
| "status_value status_invalid_state = - 602"
| "status_value status_param_inplace = 102"
| "status_value status_value_out_of_range = 105"

definition status_less :: "status \<Rightarrow> status \<Rightarrow> bool" where
  "status_less a b = (status_value a < status_value b)"

subsection \<open>Configurations\<close>

text \<open>
  Modelled from the spec: the stream and motion enumerations, the time synchronisation
  modes and the configuration structures are declared in headers that are not among the
  sources (rs/core/types.h, rs/core/video_module_interface.h). The arrays indexed by a
  stream or motion type are functions from the enumeration. Counts, sizes and rates are
  integers; the device name, a C string, is a \<open>string\<close>.
\<close>

datatype stream_type = depth | color | infrared | infrared2 | fisheye

datatype motion_type = accel | gyro

datatype time_sync_mode =
    time_synced_input_only
  | time_synced_input_accepting_unmatch_samples
  | sync_not_required

record supported_image_stream_config =
  width :: int
  height :: int
  frame_rate :: int
  flags :: nat
  is_enabled :: bool

record supported_motion_sensor_config =
  sample_rate :: int
  motion_flags :: nat
  motion_is_enabled :: bool

record supported_module_config =
  device_name :: string
  image_streams_configs :: "stream_type \<Rightarrow> supported_image_stream_config"
  motion_sensors_configs :: "motion_type \<Rightarrow> supported_motion_sensor_config"
  samples_time_sync_mode :: time_sync_mode
  async_processing :: bool

text \<open>The loops over \<^verbatim>\<open>0 .. stream_type::max - 1\<close> and \<^verbatim>\<open>0 .. motion_type::max - 1\<close>.\<close>

definition stream_types :: "stream_type list" where
  "stream_types = [depth, color, infrared, infrared2, fisheye]"

definition motion_types :: "motion_type list" where
  "motion_types = [accel, gyro]"

text \<open>The value-initialised configuration \<^verbatim>\<open>supported_module_config x = {}\<close>.\<close>

definition zero_image_stream_config :: supported_image_stream_config where
  "zero_image_stream_config =
     \<lparr>width = 0, height = 0, frame_rate = 0, flags = 0, is_enabled = False\<rparr>"

definition zero_motion_sensor_config :: supported_motion_sensor_config where
  "zero_motion_sensor_config = \<lparr>sample_rate = 0, motion_flags = 0, motion_is_enabled = False\<rparr>"

definition zero_module_config :: supported_module_config where
  "zero_module_config =
     \<lparr>device_name = [],
      image_streams_configs = (\<lambda>_. zero_image_stream_config),
      motion_sensors_configs = (\<lambda>_. zero_motion_sensor_config),
      samples_time_sync_mode = time_synced_input_only,
      async_processing = False\<rparr>"

text \<open>
  Modelled from the spec: the realisation of a supported configuration on an acquired
  device (\<^verbatim>\<open>actual_module_config\<close>, declared in the absent module interface
  header). It is built by the device manager only; the model keeps the name of the device
  and the supported configuration it was made from.
\<close>

record actual_module_config =
  actual_device_name :: string
  actual_config :: supported_module_config

definition zero_actual_module_config :: actual_module_config where
  "zero_actual_module_config = \<lparr>actual_device_name = [], actual_config = zero_module_config\<rparr>"

subsection \<open>Collaborators\<close>

text \<open>
  A computer vision module is reached through a pointer. What stands behind a pointer is
  an object answering the calls of \<^verbatim>\<open>video_module_interface\<close>; its answers are
  taken to depend on the arguments of the call only.
\<close>

type_synonym module_ptr = nat

record video_module_interface =
  query_supported_module_config :: "nat \<Rightarrow> status \<times> supported_module_config"
  set_module_config :: "actual_module_config \<Rightarrow> status"

record device =
  get_name :: string

text \<open>
  A device manager is constructed from the device found for a superset, the superset and
  the sample callback of the pipeline.
\<close>

record device_manager =
  underlying_device :: "device option"
  device_config :: supported_module_config

text \<open>
  The parts of the SDK outside this file: the devices of the context, the objects behind
  the module pointers, the superset generator of \<^verbatim>\<open>config_util\<close>, and the
  device manager (whether its constructor and its \<^verbatim>\<open>start\<close> throw, and the
  configurations it reports).
\<close>

record collaborators =
  context_devices :: "device list"
  module_at :: "module_ptr \<Rightarrow> video_module_interface"
  generete_matching_supersets :: "supported_module_config list list \<Rightarrow> supported_module_config list"
  device_manager_throws :: "device option \<Rightarrow> supported_module_config \<Rightarrow> bool"
  device_start_throws :: "device_manager \<Rightarrow> bool"
  create_actual_config_from_supported_config ::
    "device_manager \<Rightarrow> supported_module_config \<Rightarrow> actual_module_config"
  device_query_current_config :: "device_manager \<Rightarrow> actual_module_config"

text \<open>
  Modelled from the spec: \<^verbatim>\<open>config_util::is_config_empty\<close> (config_util.h is not
  among the sources). The negotiation rejects a request "if the user restriction is
  empty/unset and no modules are registered": a configuration is empty when it enables no
  stream and no motion sensor.
\<close>

definition is_config_empty :: "supported_module_config \<Rightarrow> bool" where
  "is_config_empty config \<longleftrightarrow>
     list_all (\<lambda>s. \<not> is_enabled (image_streams_configs config s)) stream_types \<and>
     list_all (\<lambda>m. \<not> motion_is_enabled (motion_sensors_configs config m)) motion_types"

subsection \<open>The configuration matcher\<close>

definition is_the_device_in_the_current_config_valid ::
  "supported_module_config \<Rightarrow> supported_module_config \<Rightarrow> bool" where
  "is_the_device_in_the_current_config_valid given_config supported_config \<longleftrightarrow>
     length (device_name given_config) = 0 \<or>
     device_name given_config = device_name supported_config"

definition is_satisfying_stream_config ::
  "supported_image_stream_config \<Rightarrow> supported_image_stream_config \<Rightarrow> bool" where
  "is_satisfying_stream_config stream_config given_stream_config =
     (let is_satisfying_stream_resolution =
            (width stream_config = width given_stream_config \<and>
             height stream_config = height given_stream_config);
          is_satisfying_stream_framerate =
            (frame_rate stream_config = frame_rate given_stream_config \<or>
             frame_rate stream_config = 0)
      in is_enabled given_stream_config \<and>
         is_satisfying_stream_resolution \<and>
         is_satisfying_stream_framerate)"

text \<open>The loop over the streams, which stops at the first stream that is not satisfied.\<close>

fun are_all_streams_in_the_current_config_satisfied ::
  "supported_module_config \<Rightarrow> supported_module_config \<Rightarrow> stream_type list \<Rightarrow> bool" where
  "are_all_streams_in_the_current_config_satisfied supported_config given_config [] = True"
| "are_all_streams_in_the_current_config_satisfied supported_config given_config (i # rest) =
     (if is_enabled (image_streams_configs supported_config i) then
        (if \<not> is_satisfying_stream_config (image_streams_configs supported_config i)
                (image_streams_configs given_config i)
         then False
         else are_all_streams_in_the_current_config_satisfied supported_config given_config rest)
      else are_all_streams_in_the_current_config_satisfied supported_config given_config rest)"

text \<open>The loop over the motion sensors, with the same early exit.\<close>

fun are_all_motions_in_the_current_config_satisfied ::
  "supported_module_config \<Rightarrow> supported_module_config \<Rightarrow> motion_type list \<Rightarrow> bool" where
  "are_all_motions_in_the_current_config_satisfied supported_config given_config [] = True"
| "are_all_motions_in_the_current_config_satisfied supported_config given_config (i # rest) =
     (if motion_is_enabled (motion_sensors_configs supported_config i) then
        (if \<not> motion_is_enabled (motion_sensors_configs given_config i)
         then False
         else are_all_motions_in_the_current_config_satisfied supported_config given_config rest)
      else are_all_motions_in_the_current_config_satisfied supported_config given_config rest)"

text \<open>
  The enumeration loop \<^verbatim>\<open>for(auto config_index = 0;; ++config_index)\<close> has no bound of
  its own: it ends when the module reports an error for an index, or when a candidate
  satisfies the given configuration. The index is a natural number here; the counter of
  the code would leave its type only after more than \<open>2 ^ 31\<close> answers without an
  error. A run that never ends is the value \<open>None\<close>. The
  result \<open>Some None\<close> is the return value \<^verbatim>\<open>false\<close>; \<open>Some (Some c)\<close> is
  \<^verbatim>\<open>true\<close> with \<open>c\<close> stored in the output parameter.
\<close>

partial_function (option) satisfying_module_config_from ::
  "video_module_interface \<Rightarrow> supported_module_config \<Rightarrow> nat \<Rightarrow> supported_module_config option option"
where
  "satisfying_module_config_from cv_module given_config config_index =
     (let answer = query_supported_module_config cv_module config_index;
          supported_config = snd answer
      in if status_less (fst answer) status_no_error then Some None
         else if \<not> is_the_device_in_the_current_config_valid given_config supported_config
           then satisfying_module_config_from cv_module given_config (config_index + 1)
         else if \<not> are_all_streams_in_the_current_config_satisfied supported_config given_config stream_types
           then satisfying_module_config_from cv_module given_config (config_index + 1)
         else if \<not> are_all_motions_in_the_current_config_satisfied supported_config given_config motion_types
           then satisfying_module_config_from cv_module given_config (config_index + 1)
         else Some (Some supported_config))"

definition is_there_a_satisfying_module_config ::
  "video_module_interface \<Rightarrow> supported_module_config \<Rightarrow> supported_module_config option option" where
  "is_there_a_satisfying_module_config cv_module given_config =
     satisfying_module_config_from cv_module given_config 0"

text \<open>
  The enumeration loop of \<^verbatim>\<open>set_config_unsafe\<close>, which collects the configurations
  a module declares until the module reports an error.
\<close>

partial_function (option) query_module_configs_from ::
  "video_module_interface \<Rightarrow> nat \<Rightarrow> supported_module_config list \<Rightarrow> supported_module_config list option"
where
  "query_module_configs_from cv_module config_index configs =
     (let answer = query_supported_module_config cv_module config_index
      in if status_less (fst answer) status_no_error then Some configs
         else query_module_configs_from cv_module (config_index + 1) (configs @ [snd answer]))"

subsection \<open>The pipeline object\<close>

datatype state = unconfigured | configured | streaming

type_synonym callback_handler = nat

datatype samples_consumer =
    Sync_application_consumer callback_handler actual_module_config time_sync_mode
  | Async_module_consumer "callback_handler option" module_ptr actual_module_config time_sync_mode
  | Sync_module_consumer "callback_handler option" module_ptr actual_module_config time_sync_mode

text \<open>The calls the pipeline makes on its collaborators.\<close>

datatype event =
    Construct_device_manager "device option" supported_module_config
  | Destroy_device_manager device_manager
  | Set_module_config module_ptr actual_module_config
  | Reset_config module_ptr
  | Flush_resources module_ptr
  | Clear_samples_consumers "samples_consumer list"
  | Device_start device_manager
  | Device_stop device_manager
  | Notify_sample_set_non_blocking samples_consumer nat

type_synonym module_config_entry = "actual_module_config \<times> bool \<times> time_sync_mode"

record pipeline_async_impl =
  m_current_state :: state
  m_user_requested_time_sync_mode :: time_sync_mode
  m_device_manager :: "device_manager option"
  m_cv_modules :: "module_ptr list"
  m_modules_configs :: "module_ptr \<rightharpoonup> module_config_entry"
  m_samples_consumers :: "samples_consumer list"

type_synonym call_result = "status \<times> pipeline_async_impl \<times> event list"

text \<open>The constructor.\<close>

definition new_pipeline :: pipeline_async_impl where
  "new_pipeline =
     \<lparr>m_current_state = unconfigured,
      m_user_requested_time_sync_mode = sync_not_required,
      m_device_manager = None,
      m_cv_modules = [],
      m_modules_configs = Map.empty,
      m_samples_consumers = []\<rparr>"

text \<open>A null module pointer is \<open>None\<close>.\<close>

definition add_cv_module :: "module_ptr option \<Rightarrow> pipeline_async_impl \<Rightarrow> status \<times> pipeline_async_impl" where
  "add_cv_module cv_module s =
     (case cv_module of
        None \<Rightarrow> (status_data_not_initialized, s)
      | Some p \<Rightarrow>
          (case m_current_state s of
             streaming \<Rightarrow> (status_invalid_state, s)
           | configured \<Rightarrow> (status_invalid_state, s)
           | unconfigured \<Rightarrow>
               if find (\<lambda>checked_module. p = checked_module) (m_cv_modules s) \<noteq> None
               then (status_param_inplace, s)
               else (status_no_error, s\<lparr>m_cv_modules := m_cv_modules s @ [p]\<rparr>)))"

definition get_hardcoded_superset_config :: supported_module_config where
  "get_hardcoded_superset_config =
     (let image = \<lparr>width = 640, height = 480, frame_rate = 30, flags = 0, is_enabled = True\<rparr>
      in zero_module_config
           \<lparr>samples_time_sync_mode := sync_not_required,
            image_streams_configs :=
              (\<lambda>_. zero_image_stream_config)
                (depth := image, color := image, infrared := image, infrared2 := image,
                 fisheye := image),
            motion_sensors_configs :=
              (\<lambda>_. zero_motion_sensor_config)
                (accel := \<lparr>sample_rate = 250, motion_flags = 0, motion_is_enabled = True\<rparr>,
                 gyro := \<lparr>sample_rate = 200, motion_flags = 0, motion_is_enabled = True\<rparr>)\<rparr>)"

text \<open>The output parameter is written when the call succeeds only.\<close>

definition query_default_config :: "nat \<Rightarrow> status \<times> supported_module_config option" where
  "query_default_config index =
     (if index \<noteq> 0 then (status_value_out_of_range, None)
      else (status_no_error, Some get_hardcoded_superset_config))"

definition get_device_from_config :: "collaborators \<Rightarrow> supported_module_config \<Rightarrow> device option" where
  "get_device_from_config env config =
     (let is_any_device_valid = (device_name config = [])
      in find (\<lambda>d. is_any_device_valid \<or> device_name config = get_name d) (context_devices env))"

text \<open>
  \<^verbatim>\<open>std::map::operator[]\<close>: a key that is absent is inserted with a value-initialised
  entry.
\<close>

definition zero_module_config_entry :: module_config_entry where
  "zero_module_config_entry = (zero_actual_module_config, False, time_synced_input_only)"

definition map_subscript ::
  "(module_ptr \<rightharpoonup> module_config_entry) \<Rightarrow> module_ptr \<Rightarrow>
   (module_ptr \<rightharpoonup> module_config_entry) \<times> module_config_entry" where
  "map_subscript m k =
     (case m k of
        Some v \<Rightarrow> (m, v)
      | None \<Rightarrow> (m(k \<mapsto> zero_module_config_entry), zero_module_config_entry))"

definition ordered_resources_reset :: "pipeline_async_impl \<Rightarrow> pipeline_async_impl \<times> event list" where
  "ordered_resources_reset s =
     (s\<lparr>m_samples_consumers := []\<rparr>,
      Clear_samples_consumers (m_samples_consumers s)
        # map Flush_resources (m_cv_modules s)
        @ (case m_device_manager s of None \<Rightarrow> [] | Some dm \<Rightarrow> [Device_stop dm]))"

definition non_blocking_sample_callback :: "nat \<Rightarrow> pipeline_async_impl \<Rightarrow> event list" where
  "non_blocking_sample_callback sample_set s =
     map (\<lambda>consumer. Notify_sample_set_non_blocking consumer sample_set) (m_samples_consumers s)"

subsection \<open>The negotiation: \<^verbatim>\<open>set_config_unsafe\<close>\<close>

fun pull_the_modules_configurations ::
  "collaborators \<Rightarrow> module_ptr list \<Rightarrow> supported_module_config list list option" where
  "pull_the_modules_configurations env [] = Some []"
| "pull_the_modules_configurations env (cv_module # rest) =
     do { configs \<leftarrow> query_module_configs_from (module_at env cv_module) 0 [];
          groups \<leftarrow> pull_the_modules_configurations env rest;
          Some (configs # groups) }"

text \<open>
  The first loop over the modules of one attempt: \<open>Some None\<close> when a module has no
  satisfying configuration, \<open>Some (Some m)\<close> with the configurations found otherwise.
\<close>

fun get_satisfying_modules_configurations ::
  "collaborators \<Rightarrow> device_manager \<Rightarrow> supported_module_config \<Rightarrow> module_ptr list \<Rightarrow>
   (module_ptr \<rightharpoonup> module_config_entry) \<Rightarrow> (module_ptr \<rightharpoonup> module_config_entry) option option" where
  "get_satisfying_modules_configurations env dm superset [] modules_configs =
     Some (Some modules_configs)"
| "get_satisfying_modules_configurations env dm superset (cv_module # rest) modules_configs =
     do { found \<leftarrow> is_there_a_satisfying_module_config (module_at env cv_module) superset;
          case found of
            None \<Rightarrow> Some None
          | Some satisfying_config \<Rightarrow>
              (let actual_module_config =
                     create_actual_config_from_supported_config env dm satisfying_config
               in get_satisfying_modules_configurations env dm superset rest
                    (modules_configs(cv_module \<mapsto>
                       (actual_module_config, async_processing satisfying_config,
                        samples_time_sync_mode satisfying_config)))) }"

text \<open>The second loop: the configurations are applied until a module refuses.\<close>

fun set_the_satisfying_modules_configurations ::
  "collaborators \<Rightarrow> module_ptr list \<Rightarrow> (module_ptr \<rightharpoonup> module_config_entry) \<Rightarrow>
   status \<times> (module_ptr \<rightharpoonup> module_config_entry) \<times> event list" where
  "set_the_satisfying_modules_configurations env [] modules_configs =
     (status_no_error, modules_configs, [])"
| "set_the_satisfying_modules_configurations env (cv_module # rest) modules_configs =
     (let looked_up = map_subscript modules_configs cv_module;
          actual_module_config = fst (snd looked_up);
          st = set_module_config (module_at env cv_module) actual_module_config
      in if status_less st status_no_error
         then (st, fst looked_up, [Set_module_config cv_module actual_module_config])
         else (case set_the_satisfying_modules_configurations env rest (fst looked_up) of
                 (st', modules_configs', applied) \<Rightarrow>
                   (st', modules_configs', Set_module_config cv_module actual_module_config # applied)))"

definition after_events :: "event list \<Rightarrow> call_result option \<Rightarrow> call_result option" where
  "after_events evs r = map_option (\<lambda>(st, s, evs'). (st, s, evs @ evs')) r"

text \<open>The loop over the supersets.\<close>

fun try_supersets ::
  "collaborators \<Rightarrow> supported_module_config \<Rightarrow> supported_module_config list \<Rightarrow>
   pipeline_async_impl \<Rightarrow> call_result option" where
  "try_supersets env config [] s = Some (status_match_not_found, s, [])"
| "try_supersets env config (superset # rest) s =
     (let released = (case m_device_manager s of None \<Rightarrow> [] | Some old \<Rightarrow> [Destroy_device_manager old]);
          s1 = s\<lparr>m_device_manager := None\<rparr>;
          found_device = get_device_from_config env superset;
          constructed = released @ [Construct_device_manager found_device superset]
      in if device_manager_throws env found_device superset
         then after_events constructed (try_supersets env config rest s1)
         else
           (let dm = \<lparr>underlying_device = found_device, device_config = superset\<rparr>
            in do {
              found \<leftarrow> get_satisfying_modules_configurations env dm superset (m_cv_modules s1) Map.empty;
              case found of
                None \<Rightarrow>
                  after_events (constructed @ [Destroy_device_manager dm])
                    (try_supersets env config rest s1)
              | Some modules_configs \<Rightarrow>
                  (case set_the_satisfying_modules_configurations env (m_cv_modules s1) modules_configs of
                     (module_config_status, modules_configs', applied) \<Rightarrow>
                       if status_less module_config_status status_no_error
                       then after_events
                              (constructed @ applied @ map Reset_config (m_cv_modules s1)
                                 @ [Destroy_device_manager dm])
                              (try_supersets env config rest s1)
                       else Some (status_no_error,
                                  s1\<lparr>m_modules_configs := modules_configs',
                                     m_device_manager := Some dm,
                                     m_user_requested_time_sync_mode := samples_time_sync_mode config\<rparr>,
                                  constructed @ applied))
            }))"

definition set_config_unsafe ::
  "collaborators \<Rightarrow> supported_module_config \<Rightarrow> pipeline_async_impl \<Rightarrow> call_result option" where
  "set_config_unsafe env config s =
     (if is_config_empty config \<and> m_cv_modules s = [] then Some (status_invalid_argument, s, [])
      else do {
        groups \<leftarrow> pull_the_modules_configurations env (m_cv_modules s);
        try_supersets env config (generete_matching_supersets env (groups @ [[config]])) s
      })"

subsection \<open>The lifecycle operations\<close>

definition set_config ::
  "collaborators \<Rightarrow> supported_module_config \<Rightarrow> pipeline_async_impl \<Rightarrow> call_result option" where
  "set_config env config s =
     (case m_current_state s of
        streaming \<Rightarrow> Some (status_invalid_state, s, [])
      | _ \<Rightarrow>
          do { (set_config_status, s1, evs) \<leftarrow> set_config_unsafe env config s;
               Some (set_config_status,
                     (if set_config_status = status_no_error
                      then s1\<lparr>m_current_state := configured\<rparr> else s1),
                     evs) })"

definition query_current_config ::
  "collaborators \<Rightarrow> pipeline_async_impl \<Rightarrow> status \<times> actual_module_config option" where
  "query_current_config env s =
     (case m_current_state s of
        unconfigured \<Rightarrow> (status_invalid_state, None)
      | _ \<Rightarrow>
          (case m_device_manager s of
             None \<Rightarrow> (status_data_unavailable, None)
           | Some dm \<Rightarrow> (status_no_error, Some (device_query_current_config env dm))))"

text \<open>
  The consumers of the modules, in the order of registration. The three reads
  \<^verbatim>\<open>m_modules_configs[cv_module]\<close> are one subscript, which inserts the key when it is
  absent.
\<close>

fun create_modules_consumers ::
  "callback_handler option \<Rightarrow> module_ptr list \<Rightarrow> (module_ptr \<rightharpoonup> module_config_entry) \<Rightarrow>
   (module_ptr \<rightharpoonup> module_config_entry) \<times> samples_consumer list" where
  "create_modules_consumers app_callbacks_handler [] modules_configs = (modules_configs, [])"
| "create_modules_consumers app_callbacks_handler (cv_module # rest) modules_configs =
     (let looked_up = map_subscript modules_configs cv_module;
          actual_module_config = fst (snd looked_up);
          is_cv_module_async = fst (snd (snd looked_up));
          module_time_sync_mode = snd (snd (snd looked_up));
          consumer =
            (if is_cv_module_async
             then Async_module_consumer app_callbacks_handler cv_module actual_module_config
                    module_time_sync_mode
             else Sync_module_consumer app_callbacks_handler cv_module actual_module_config
                    module_time_sync_mode)
      in case create_modules_consumers app_callbacks_handler rest (fst looked_up) of
           (modules_configs', consumers) \<Rightarrow> (modules_configs', consumer # consumers))"

text \<open>
  A call either returns, or stops at the assertion that a configured pipeline has a device
  manager (without the assertion, the null device manager is dereferenced).
\<close>

datatype 'a outcome = Returns 'a | Assertion_fails

text \<open>The part of \<^verbatim>\<open>start\<close> after the switch on the state. A null handler is \<open>None\<close>.\<close>

definition start_configured ::
  "collaborators \<Rightarrow> callback_handler option \<Rightarrow> pipeline_async_impl \<Rightarrow> event list \<Rightarrow>
   call_result outcome" where
  "start_configured env app_callbacks_handler s evs =
     (case m_device_manager s of
        None \<Rightarrow> Assertion_fails
      | Some dm \<Rightarrow>
          (let application_consumer =
                 (case app_callbacks_handler of
                    None \<Rightarrow> []
                  | Some h \<Rightarrow>
                      [Sync_application_consumer h (device_query_current_config env dm)
                         (m_user_requested_time_sync_mode s)]);
               built = create_modules_consumers app_callbacks_handler (m_cv_modules s)
                         (m_modules_configs s);
               samples_consumers = application_consumer @ snd built;
               s1 = s\<lparr>m_modules_configs := fst built\<rparr>
           in if device_start_throws env dm
              then Returns (status_device_failed, s1, evs @ [Device_start dm])
              else Returns (status_no_error,
                            s1\<lparr>m_samples_consumers := samples_consumers,
                               m_current_state := streaming\<rparr>,
                            evs @ [Device_start dm])))"

definition start ::
  "collaborators \<Rightarrow> callback_handler option \<Rightarrow> pipeline_async_impl \<Rightarrow> call_result outcome option" where
  "start env app_callbacks_handler s =
     (case m_current_state s of
        streaming \<Rightarrow> Some (Returns (status_invalid_state, s, []))
      | unconfigured \<Rightarrow>
          do { (set_config_status, s1, evs) \<leftarrow> set_config_unsafe env zero_module_config s;
               if status_less set_config_status status_no_error
               then Some (Returns (set_config_status, s1, evs))
               else Some (start_configured env app_callbacks_handler
                            (s1\<lparr>m_current_state := configured\<rparr>) evs) }
      | configured \<Rightarrow> Some (start_configured env app_callbacks_handler s []))"

definition stop :: "pipeline_async_impl \<Rightarrow> call_result" where
  "stop s =
     (case m_current_state s of
        streaming \<Rightarrow>
          (case ordered_resources_reset s of
             (s1, evs) \<Rightarrow> (status_no_error, s1\<lparr>m_current_state := configured\<rparr>, evs))
      | _ \<Rightarrow> (status_invalid_state, s, []))"

definition reset :: "pipeline_async_impl \<Rightarrow> call_result" where
  "reset s =
     (case ordered_resources_reset s of
        (s1, evs) \<Rightarrow>
          (status_no_error,
           s1\<lparr>m_device_manager := None,
              m_cv_modules := [],
              m_modules_configs := Map.empty,
              m_user_requested_time_sync_mode := sync_not_required,
              m_current_state := unconfigured\<rparr>,
           evs @ (case m_device_manager s1 of None \<Rightarrow> [] | Some dm \<Rightarrow> [Destroy_device_manager dm])))"

text \<open>
  The destructor runs the ordered reset; the members are destroyed after its body, the
  device manager among them.
\<close>

definition destroy_pipeline :: "pipeline_async_impl \<Rightarrow> event list" where
  "destroy_pipeline s =
     (case ordered_resources_reset s of
        (s1, evs) \<Rightarrow>
          evs @ (case m_device_manager s1 of None \<Rightarrow> [] | Some dm \<Rightarrow> [Destroy_device_manager dm]))"

text \<open>The states a pipeline can be in after any sequence of calls that returned.\<close>

inductive reachable :: "collaborators \<Rightarrow> pipeline_async_impl \<Rightarrow> bool" for env where
  reachable_new: "reachable env new_pipeline"
| reachable_add_cv_module:
    "reachable env s \<Longrightarrow> add_cv_module cv_module s = (st, s') \<Longrightarrow> reachable env s'"
| reachable_set_config:
    "reachable env s \<Longrightarrow> set_config env config s = Some (st, s', evs) \<Longrightarrow> reachable env s'"
| reachable_start:
    "reachable env s \<Longrightarrow> start env handler s = Some (Returns (st, s', evs)) \<Longrightarrow> reachable env s'"
| reachable_stop:
    "reachable env s \<Longrightarrow> stop s = (st, s', evs) \<Longrightarrow> reachable env s'"
| reachable_reset:
    "reachable env s \<Longrightarrow> reset s = (st, s', evs) \<Longrightarrow> reachable env s'"

subsection \<open>Notions used to state the properties\<close>

text \<open>
  The enumeration of a module ends at index \<open>n\<close>: the module answers every index
  below \<open>n\<close> without an error and reports an error at \<open>n\<close>. The configurations it
  declares from index \<open>i\<close> on are its answers up to there.
\<close>

definition enumeration_ends_at :: "video_module_interface \<Rightarrow> nat \<Rightarrow> bool" where
  "enumeration_ends_at cv_module n \<longleftrightarrow>
     (\<forall>i < n. \<not> status_less (fst (query_supported_module_config cv_module i)) status_no_error) \<and>
     status_less (fst (query_supported_module_config cv_module n)) status_no_error"

definition declared_configs :: "video_module_interface \<Rightarrow> nat \<Rightarrow> nat \<Rightarrow> supported_module_config list" where
  "declared_configs cv_module i n =
     map (\<lambda>j. snd (query_supported_module_config cv_module j)) [i..<n]"

text \<open>The three checks a candidate passes before the matcher returns it.\<close>

definition config_is_satisfying :: "supported_module_config \<Rightarrow> supported_module_config \<Rightarrow> bool" where
  "config_is_satisfying given_config supported_config \<longleftrightarrow>
     is_the_device_in_the_current_config_valid given_config supported_config \<and>
     are_all_streams_in_the_current_config_satisfied supported_config given_config stream_types \<and>
     are_all_motions_in_the_current_config_satisfied supported_config given_config motion_types"

text \<open>
  The condition on streams and motion sensors, in the words of the specification: every
  stream the candidate marks enabled is enabled in the superset with equal width and
  height and either equal frame rate or candidate frame rate 0, and every motion sensor
  the candidate marks enabled is enabled in the superset.
\<close>

definition streams_and_motions_covered ::
  "supported_module_config \<Rightarrow> supported_module_config \<Rightarrow> bool" where
  "streams_and_motions_covered candidate superset \<longleftrightarrow>
     (\<forall>s. is_enabled (image_streams_configs candidate s) \<longrightarrow>
          is_enabled (image_streams_configs superset s) \<and>
          width (image_streams_configs candidate s) = width (image_streams_configs superset s) \<and>
          height (image_streams_configs candidate s) = height (image_streams_configs superset s) \<and>
          (frame_rate (image_streams_configs candidate s) = frame_rate (image_streams_configs superset s) \<or>
           frame_rate (image_streams_configs candidate s) = 0)) \<and>
     (\<forall>m. motion_is_enabled (motion_sensors_configs candidate m) \<longrightarrow>
          motion_is_enabled (motion_sensors_configs superset m))"

text \<open>
  The condition on the device name, in the words of the specification: the candidate's
  device-name filter is empty or equals the superset's device name.
\<close>

definition device_name_condition_of_the_spec ::
  "supported_module_config \<Rightarrow> supported_module_config \<Rightarrow> bool" where
  "device_name_condition_of_the_spec candidate superset \<longleftrightarrow>
     device_name candidate = [] \<or> device_name candidate = device_name superset"

text \<open>
  The condition the matcher applies: the superset names no device or names the device of
  the candidate, and the candidate's streams and motion sensors are covered.
\<close>

definition satisfies_superset :: "supported_module_config \<Rightarrow> supported_module_config \<Rightarrow> bool" where
  "satisfies_superset candidate superset \<longleftrightarrow>
     (device_name superset = [] \<or> device_name superset = device_name candidate) \<and>
     streams_and_motions_covered candidate superset"

text \<open>
  A superset is accepted for a list of modules: the device manager is constructed for it,
  every module has a satisfying configuration, and every module takes the actual
  configuration made of it.
\<close>

definition superset_accepted ::
  "collaborators \<Rightarrow> module_ptr list \<Rightarrow> supported_module_config \<Rightarrow> bool" where
  "superset_accepted env modules superset \<longleftrightarrow>
     \<not> device_manager_throws env (get_device_from_config env superset) superset \<and>
     (\<forall>cv_module \<in> set modules.
        \<exists>satisfying_config.
          is_there_a_satisfying_module_config (module_at env cv_module) superset
            = Some (Some satisfying_config) \<and>
          \<not> status_less
               (set_module_config (module_at env cv_module)
                  (create_actual_config_from_supported_config env
                     \<lparr>underlying_device = get_device_from_config env superset,
                      device_config = superset\<rparr>
                     satisfying_config))
               status_no_error)"

text \<open>
  The same, with the satisfying configuration spelled out instead of computed by the
  matcher: the module answers the indices up to some \<open>k\<close> without an error, the
  candidate at \<open>k\<close> is the first that satisfies the superset (the superset names no
  device or the device of the candidate, and the candidate's streams and motion sensors
  are covered), and the module takes the actual configuration made of that candidate.
\<close>

definition superset_negotiable ::
  "collaborators \<Rightarrow> module_ptr list \<Rightarrow> supported_module_config \<Rightarrow> bool" where
  "superset_negotiable env modules superset \<longleftrightarrow>
     \<not> device_manager_throws env (get_device_from_config env superset) superset \<and>
     (\<forall>cv_module \<in> set modules.
        \<exists>k. (\<forall>j \<le> k. \<not> status_less
                         (fst (query_supported_module_config (module_at env cv_module) j))
                         status_no_error) \<and>
            satisfies_superset
              (snd (query_supported_module_config (module_at env cv_module) k)) superset \<and>
            (\<forall>j < k. \<not> satisfies_superset
                         (snd (query_supported_module_config (module_at env cv_module) j))
                         superset) \<and>
            \<not> status_less
                 (set_module_config (module_at env cv_module)
                    (create_actual_config_from_supported_config env
                       \<lparr>underlying_device = get_device_from_config env superset,
                        device_config = superset\<rparr>
                       (snd (query_supported_module_config (module_at env cv_module) k))))
                 status_no_error)"

text \<open>
  Acceptance in the words of the specification, whose matcher takes the first candidate
  whose device-name filter is empty or equals the device name of the superset, and whose
  streams and motion sensors are covered: the device manager is constructed, every module
  has such a candidate among the configurations it declares, and takes the actual
  configuration made of it.
\<close>

definition satisfying_config_of_the_spec ::
  "supported_module_config list \<Rightarrow> supported_module_config \<Rightarrow> supported_module_config option" where
  "satisfying_config_of_the_spec candidates superset =
     find (\<lambda>c. device_name_condition_of_the_spec c superset \<and>
                streams_and_motions_covered c superset) candidates"

definition superset_accepted_of_the_spec ::
  "collaborators \<Rightarrow> module_ptr list \<Rightarrow> supported_module_config \<Rightarrow> bool" where
  "superset_accepted_of_the_spec env modules superset \<longleftrightarrow>
     \<not> device_manager_throws env (get_device_from_config env superset) superset \<and>
     (\<forall>cv_module \<in> set modules.
        \<exists>n c. enumeration_ends_at (module_at env cv_module) n \<and>
              satisfying_config_of_the_spec (declared_configs (module_at env cv_module) 0 n) superset
                = Some c \<and>
              \<not> status_less
                   (set_module_config (module_at env cv_module)
                      (create_actual_config_from_supported_config env
                         \<lparr>underlying_device = get_device_from_config env superset,
                          device_config = superset\<rparr> c))
                   status_no_error)"

text \<open>The supersets for which a device manager was constructed, or its construction tried.\<close>

fun attempted_supersets :: "event list \<Rightarrow> supported_module_config list" where
  "attempted_supersets [] = []"
| "attempted_supersets (Construct_device_manager d superset # evs) =
     superset # attempted_supersets evs"
| "attempted_supersets (e # evs) = attempted_supersets evs"

text \<open>
  The teardown, in the words of the specification: clear the consumer list, call flush
  resources on every registered module, stop the device when one is committed.
\<close>

definition ordered_teardown_steps ::
  "samples_consumer list \<Rightarrow> module_ptr list \<Rightarrow> device_manager option \<Rightarrow> event list" where
  "ordered_teardown_steps consumers modules committed =
     [Clear_samples_consumers consumers]
       @ map Flush_resources modules
       @ (case committed of None \<Rightarrow> [] | Some dm \<Rightarrow> [Device_stop dm])"

fun is_flush_or_consumer_call :: "event \<Rightarrow> bool" where
  "is_flush_or_consumer_call (Flush_resources p) = True"
| "is_flush_or_consumer_call (Clear_samples_consumers cs) = True"
| "is_flush_or_consumer_call (Notify_sample_set_non_blocking c k) = True"
| "is_flush_or_consumer_call e = False"

text \<open>No module flush and no call on a consumer comes after a device stop.\<close>

fun quiet_after_device_stop :: "event list \<Rightarrow> bool" where
  "quiet_after_device_stop [] = True"
| "quiet_after_device_stop (Device_stop dm # evs) =
     (list_all (\<lambda>e. \<not> is_flush_or_consumer_call e) evs \<and> quiet_after_device_stop evs)"
| "quiet_after_device_stop (e # evs) = quiet_after_device_stop evs"

text \<open>
  The invariant of the data model: a device manager and the configurations of all
  registered modules exist exactly in the states configured and streaming.
\<close>

definition device_and_configs_iff_configured :: "pipeline_async_impl \<Rightarrow> bool" where
  "device_and_configs_iff_configured s \<longleftrightarrow>
     ((m_device_manager s \<noteq> None \<and> set (m_cv_modules s) \<subseteq> dom (m_modules_configs s))
      = (m_current_state s = configured \<or> m_current_state s = streaming))"

subsection \<open>An example installation\<close>

text \<open>
  Modelled from the spec: values for the collaborators that are not among the sources
  (the devices of the context, \<^verbatim>\<open>rs::core::device_manager\<close>,
  \<^verbatim>\<open>config_util::generete_matching_supersets\<close>, a module), for the concrete
  sessions below. One camera is attached. A module declares a list of configurations,
  answers an index past the list with an error, and takes every configuration. The device
  manager cannot be constructed without a device: a superset naming a device that is not
  attached finds none, and acquisition fails. It builds an actual configuration from the
  device's name and the supported configuration. The generator chooses exactly one
  candidate of each group, in lexicographic order of the choices, and merges the chosen
  candidates; a combination whose candidates cannot be merged is left out. With no module
  registered the only group is the caller's restriction, and the supersets are its
  candidates.
\<close>

definition zr300 :: device where
  "zr300 = \<lparr>get_name = ''Intel RealSense ZR300''\<rparr>"

definition module_declaring :: "supported_module_config list \<Rightarrow> video_module_interface" where
  "module_declaring configs =
     \<lparr>query_supported_module_config =
        (\<lambda>i. if i < length configs then (status_no_error, configs ! i)
              else (status_item_unavailable, zero_module_config)),
      set_module_config = (\<lambda>_. status_no_error)\<rparr>"

text \<open>
  Modelled from the spec: the merge of two chosen candidates. A stream or motion sensor
  that one of them enables is enabled in the merge, none is dropped. Where both enable a
  stream, width and height must agree, and the frame rates must agree unless one of them
  is 0, any rate, which gives way to the other; likewise for the sample rates of a motion
  sensor. Two different device names, both not empty, cannot be merged; an empty name
  gives way to the other. What the spec leaves open (the synchronisation mode and the
  processing flag of the merge) is taken from the earlier group.
\<close>

definition merge_image_streams ::
  "supported_image_stream_config \<Rightarrow> supported_image_stream_config \<Rightarrow>
   supported_image_stream_config option" where
  "merge_image_streams a b =
     (if \<not> is_enabled a then Some b
      else if \<not> is_enabled b then Some a
      else if width a = width b \<and> height a = height b \<and>
              (frame_rate a = frame_rate b \<or> frame_rate a = 0 \<or> frame_rate b = 0)
      then Some (a\<lparr>frame_rate := (if frame_rate a = 0 then frame_rate b else frame_rate a)\<rparr>)
      else None)"

definition merge_motion_sensors ::
  "supported_motion_sensor_config \<Rightarrow> supported_motion_sensor_config \<Rightarrow>
   supported_motion_sensor_config option" where
  "merge_motion_sensors a b =
     (if \<not> motion_is_enabled a then Some b
      else if \<not> motion_is_enabled b then Some a
      else if sample_rate a = sample_rate b \<or> sample_rate a = 0 \<or> sample_rate b = 0
      then Some (a\<lparr>sample_rate := (if sample_rate a = 0 then sample_rate b else sample_rate a)\<rparr>)
      else None)"

definition merge_configs ::
  "supported_module_config \<Rightarrow> supported_module_config \<Rightarrow> supported_module_config option" where
  "merge_configs a b =
     (if device_name a \<noteq> [] \<and> device_name b \<noteq> [] \<and> device_name a \<noteq> device_name b then None
      else if list_ex (\<lambda>s. merge_image_streams (image_streams_configs a s)
                             (image_streams_configs b s) = None) stream_types then None
      else if list_ex (\<lambda>m. merge_motion_sensors (motion_sensors_configs a m)
                             (motion_sensors_configs b m) = None) motion_types then None
      else Some (a\<lparr>device_name := (if device_name a = [] then device_name b else device_name a),
                   image_streams_configs :=
                     (\<lambda>s. case merge_image_streams (image_streams_configs a s)
                                 (image_streams_configs b s) of
                            Some c \<Rightarrow> c | None \<Rightarrow> image_streams_configs a s),
                   motion_sensors_configs :=
                     (\<lambda>m. case merge_motion_sensors (motion_sensors_configs a m)
                                 (motion_sensors_configs b m) of
                            Some c \<Rightarrow> c | None \<Rightarrow> motion_sensors_configs a m)\<rparr>))"

fun merge_all :: "supported_module_config list \<Rightarrow> supported_module_config option" where
  "merge_all [] = Some zero_module_config"
| "merge_all [c] = Some c"
| "merge_all (c # d # rest) =
     (case merge_configs c d of None \<Rightarrow> None | Some m \<Rightarrow> merge_all (m # rest))"

definition one_of_each_group ::
  "supported_module_config list list \<Rightarrow> supported_module_config list" where
  "one_of_each_group groups = List.map_filter merge_all (product_lists groups)"

definition vga_depth_only :: "string \<Rightarrow> int \<Rightarrow> supported_module_config" where
  "vga_depth_only name rate =
     zero_module_config
       \<lparr>device_name := name,
        image_streams_configs :=
          (\<lambda>_. zero_image_stream_config)
            (depth := \<lparr>width = 640, height = 480, frame_rate = rate, flags = 0, is_enabled = True\<rparr>)\<rparr>"

definition actual_of :: "device_manager \<Rightarrow> supported_module_config \<Rightarrow> actual_module_config" where
  "actual_of dm config =
     \<lparr>actual_device_name = (case underlying_device dm of None \<Rightarrow> [] | Some d \<Rightarrow> get_name d),
      actual_config = config\<rparr>"

definition installation :: "(module_ptr \<Rightarrow> video_module_interface) \<Rightarrow> bool \<Rightarrow> collaborators" where
  "installation modules start_throws =
     \<lparr>context_devices = [zr300],
      module_at = modules,
      generete_matching_supersets = one_of_each_group,
      device_manager_throws = (\<lambda>d config. d = None),
      device_start_throws = (\<lambda>dm. start_throws),
      create_actual_config_from_supported_config = actual_of,
      device_query_current_config = (\<lambda>dm. actual_of dm (device_config dm))\<rparr>"

text \<open>No module is registered in \<open>camera_only\<close>; the device starts.\<close>

definition camera_only :: collaborators where
  "camera_only = installation (\<lambda>p. module_declaring []) False"

text \<open>The same camera, but its \<^verbatim>\<open>start\<close> throws.\<close>

definition camera_failing_to_start :: collaborators where
  "camera_failing_to_start = installation (\<lambda>p. module_declaring []) True"

text \<open>
  The tracker is a module with two configurations: depth at 30 frames on a device called
  D400, and depth at any frame rate on any device.
\<close>

definition tracker :: video_module_interface where
  "tracker = module_declaring [vga_depth_only ''D400'' 30, vga_depth_only [] 0]"

text \<open>
  In \<open>with_mapper\<close> every module pointer is a module with three configurations:
  depth at 30 frames on a device called D400, depth at 30 frames on any device, and depth
  at any frame rate on any device.
\<close>

definition mapper :: video_module_interface where
  "mapper =
     module_declaring [vga_depth_only ''D400'' 30, vga_depth_only [] 30, vga_depth_only [] 0]"

definition with_mapper :: collaborators where
  "with_mapper = installation (\<lambda>p. mapper) False"

text \<open>
  In \<open>with_any_device_module\<close> every module pointer is a module with one
  configuration: depth at any frame rate on any device.
\<close>

definition with_any_device_module :: collaborators where
  "with_any_device_module = installation (\<lambda>p. module_declaring [vga_depth_only [] 0]) False"

text \<open>The states of the example sessions.\<close>

definition committed_hardcoded :: pipeline_async_impl where
  "committed_hardcoded =
     new_pipeline
       \<lparr>m_current_state := configured,
        m_device_manager :=
          Some \<lparr>underlying_device = Some zr300, device_config = get_hardcoded_superset_config\<rparr>\<rparr>"

definition streaming_hardcoded :: pipeline_async_impl where
  "streaming_hardcoded = committed_hardcoded\<lparr>m_current_state := streaming\<rparr>"

definition absent_camera_config :: supported_module_config where
  "absent_camera_config = get_hardcoded_superset_config\<lparr>device_name := ''D400''\<rparr>"

section \<open>Properties\<close>

subsection \<open>Registration of modules\<close>

lemma find_eq_None_iff: "(find ((=) p) xs = None) = (p \<notin> set xs)"
  by (auto simp: find_None_iff)

text \<open>
  C7. Registering a module succeeds in the unconfigured state only. A null handle is
  refused; a handle is refused with invalid-state when the pipeline is configured or
  streaming; a handle that is registered already is refused as a duplicate, so that a
  second registration of the handle just registered fails. A refused call changes
  nothing: the module list and the state stay as they were. The cases are read in the
  order of the claim: the state is looked at for a handle that is not null, the list for
  a handle in the unconfigured state.
\<close>

theorem add_cv_module_rejections:
  "add_cv_module None s = (status_data_not_initialized, s) \<and>
   (m_current_state s \<noteq> unconfigured \<longrightarrow> add_cv_module (Some p) s = (status_invalid_state, s)) \<and>
   (m_current_state s = unconfigured \<and> p \<in> set (m_cv_modules s) \<longrightarrow>
      add_cv_module (Some p) s = (status_param_inplace, s)) \<and>
   (fst (add_cv_module h s) = status_no_error \<longrightarrow>
      m_current_state s = unconfigured \<and>
      (\<exists>q. h = Some q \<and> q \<notin> set (m_cv_modules s) \<and>
           snd (add_cv_module h s) = s\<lparr>m_cv_modules := m_cv_modules s @ [q]\<rparr> \<and>
           add_cv_module h (snd (add_cv_module h s)) = (status_param_inplace, snd (add_cv_module h s)))) \<and>
   (fst (add_cv_module h s) \<noteq> status_no_error \<longrightarrow> snd (add_cv_module h s) = s)"
  by (cases h; cases "m_current_state s")
     (auto simp: add_cv_module_def find_eq_None_iff split: state.splits)

theorem add_cv_module_rejections_witness:
  "add_cv_module None new_pipeline = (status_data_not_initialized, new_pipeline) \<and>
   add_cv_module (Some 1) committed_hardcoded = (status_invalid_state, committed_hardcoded) \<and>
   fst (add_cv_module (Some 1) new_pipeline) = status_no_error \<and>
   add_cv_module (Some 1) (snd (add_cv_module (Some 1) new_pipeline))
     = (status_param_inplace, new_pipeline\<lparr>m_cv_modules := [1]\<rparr>)"
proof -
  have a: "m_current_state committed_hardcoded \<noteq> unconfigured"
    by (simp add: committed_hardcoded_def new_pipeline_def)
  have b: "fst (add_cv_module (Some 1) new_pipeline) = status_no_error"
    by (simp add: add_cv_module_def new_pipeline_def)
  show ?thesis
    using add_cv_module_rejections [of new_pipeline 1 "Some 1"]
          add_cv_module_rejections [of committed_hardcoded 1 None] a b
    by (auto simp: new_pipeline_def)
qed

subsection \<open>The ordered teardown\<close>

lemma quiet_after_flushes:
  "quiet_after_device_stop (map Flush_resources ps @ evs) = quiet_after_device_stop evs"
  by (induction ps) simp_all

lemma quiet_flushes: "quiet_after_device_stop (map Flush_resources ps)"
  by (induction ps) simp_all

text \<open>
  C9. Every teardown makes exactly the calls of the ordered teardown, in its order: the
  consumer list is cleared, then every registered module flushes its resources, in the
  order of registration, then the device is stopped, when one is committed. This is what
  \<^verbatim>\<open>stop\<close> does in the streaming state (it does nothing in another state), and
  what \<^verbatim>\<open>reset\<close> and the destructor do first; what they do afterwards is neither a
  flush nor a call on a consumer. No flush and no call on a consumer follows a device
  stop, and a sample set that arrives after a teardown is forwarded to no consumer.
\<close>

theorem teardown_order:
  "snd (ordered_resources_reset s)
     = ordered_teardown_steps (m_samples_consumers s) (m_cv_modules s) (m_device_manager s) \<and>
   quiet_after_device_stop (snd (ordered_resources_reset s)) \<and>
   non_blocking_sample_callback k (fst (ordered_resources_reset s)) = [] \<and>
   (m_current_state s = streaming \<longrightarrow>
      snd (snd (stop s)) = snd (ordered_resources_reset s) \<and>
      non_blocking_sample_callback k (fst (snd (stop s))) = []) \<and>
   (m_current_state s \<noteq> streaming \<longrightarrow> snd (snd (stop s)) = []) \<and>
   (\<exists>after. snd (snd (reset s)) = snd (ordered_resources_reset s) @ after \<and>
            list_all (\<lambda>e. \<not> is_flush_or_consumer_call e) after) \<and>
   quiet_after_device_stop (snd (snd (reset s))) \<and>
   non_blocking_sample_callback k (fst (snd (reset s))) = [] \<and>
   (\<exists>after. destroy_pipeline s = snd (ordered_resources_reset s) @ after \<and>
            list_all (\<lambda>e. \<not> is_flush_or_consumer_call e) after) \<and>
   quiet_after_device_stop (destroy_pipeline s)"
  by (cases "m_device_manager s"; cases "m_current_state s")
     (simp_all add: ordered_resources_reset_def ordered_teardown_steps_def stop_def reset_def
        destroy_pipeline_def non_blocking_sample_callback_def quiet_after_flushes quiet_flushes)

theorem teardown_order_witness:
  "snd (snd (stop (streaming_hardcoded\<lparr>m_cv_modules := [1, 2]\<rparr>)))
     = [Clear_samples_consumers [], Flush_resources 1, Flush_resources 2,
        Device_stop \<lparr>underlying_device = Some zr300, device_config = get_hardcoded_superset_config\<rparr>] \<and>
   snd (snd (stop committed_hardcoded)) = []"
proof -
  have a: "m_current_state (streaming_hardcoded\<lparr>m_cv_modules := [1, 2]\<rparr>) = streaming"
    by (simp add: streaming_hardcoded_def)
  have b: "m_current_state committed_hardcoded \<noteq> streaming"
    by (simp add: committed_hardcoded_def new_pipeline_def)
  show ?thesis
    using teardown_order [of "streaming_hardcoded\<lparr>m_cv_modules := [1, 2]\<rparr>" 0]
          teardown_order [of committed_hardcoded 0] a b
    by (simp add: ordered_teardown_steps_def streaming_hardcoded_def committed_hardcoded_def
          new_pipeline_def)
qed

subsection \<open>Enumerations that end\<close>

lemma satisfying_from_ends:
  assumes "enumeration_ends_at m n" and "i \<le> n"
  shows "satisfying_module_config_from m g i = Some (find (config_is_satisfying g) (declared_configs m i n))"
  using assms(2)
proof (induction "n - i" arbitrary: i)
  case 0
  then have "i = n" by simp
  with assms(1) show ?case
    by (subst satisfying_module_config_from.simps)
       (simp add: enumeration_ends_at_def declared_configs_def Let_def)
next
  case (Suc k)
  then have lt: "i < n" and le: "Suc i \<le> n" and k: "k = n - Suc i" by simp_all
  from assms(1) lt have ok: "\<not> status_less (fst (query_supported_module_config m i)) status_no_error"
    by (simp add: enumeration_ends_at_def)
  have up: "[i..<n] = i # [Suc i..<n]" using lt by (simp add: upt_conv_Cons)
  show ?case
    using Suc.hyps(1)[OF k le] ok
    by (subst satisfying_module_config_from.simps)
       (simp add: declared_configs_def up Let_def config_is_satisfying_def)
qed

lemma matcher_of_ended_enumeration:
  "enumeration_ends_at m n \<Longrightarrow>
   is_there_a_satisfying_module_config m g = Some (find (config_is_satisfying g) (declared_configs m 0 n))"
  by (simp add: is_there_a_satisfying_module_config_def satisfying_from_ends)

lemma query_configs_from_ends:
  assumes "enumeration_ends_at m n" and "i \<le> n"
  shows "query_module_configs_from m i acc = Some (acc @ declared_configs m i n)"
  using assms(2)
proof (induction "n - i" arbitrary: i acc)
  case 0
  then have "i = n" by simp
  with assms(1) show ?case
    by (subst query_module_configs_from.simps)
       (simp add: enumeration_ends_at_def declared_configs_def Let_def)
next
  case (Suc k)
  then have lt: "i < n" and le: "Suc i \<le> n" and k: "k = n - Suc i" by simp_all
  from assms(1) lt have ok: "\<not> status_less (fst (query_supported_module_config m i)) status_no_error"
    by (simp add: enumeration_ends_at_def)
  have up: "[i..<n] = i # [Suc i..<n]" using lt by (simp add: upt_conv_Cons)
  show ?case
    using Suc.hyps(1)[OF k le] ok
    by (subst query_module_configs_from.simps)
       (simp add: declared_configs_def up Let_def)
qed

lemma pull_returns:
  "\<forall>p \<in> set ps. \<exists>n. enumeration_ends_at (module_at env p) n \<Longrightarrow>
   \<exists>groups. pull_the_modules_configurations env ps = Some groups"
proof (induction ps)
  case Nil
  then show ?case by simp
next
  case (Cons p ps)
  then obtain n where "enumeration_ends_at (module_at env p) n" by auto
  then have "query_module_configs_from (module_at env p) 0 [] = Some ([] @ declared_configs (module_at env p) 0 n)"
    by (intro query_configs_from_ends) simp_all
  moreover from Cons obtain groups where "pull_the_modules_configurations env ps = Some groups" by auto
  ultimately show ?case by simp
qed

lemma streams_loop_iff:
  "are_all_streams_in_the_current_config_satisfied supported given ss \<longleftrightarrow>
     (\<forall>s \<in> set ss. is_enabled (image_streams_configs supported s) \<longrightarrow>
        is_satisfying_stream_config (image_streams_configs supported s) (image_streams_configs given s))"
  by (induction ss) auto

lemma motions_loop_iff:
  "are_all_motions_in_the_current_config_satisfied supported given ms \<longleftrightarrow>
     (\<forall>m \<in> set ms. motion_is_enabled (motion_sensors_configs supported m) \<longrightarrow>
        motion_is_enabled (motion_sensors_configs given m))"
  by (induction ms) auto

lemma all_stream_types: "set stream_types = UNIV"
proof -
  have "s \<in> set stream_types" for s by (cases s) (simp_all add: stream_types_def)
  then show ?thesis by blast
qed

lemma all_motion_types: "set motion_types = UNIV"
proof -
  have "m \<in> set motion_types" for m by (cases m) (simp_all add: motion_types_def)
  then show ?thesis by blast
qed

lemma config_is_satisfying_iff:
  "config_is_satisfying given supported \<longleftrightarrow>
     (device_name given = [] \<or> device_name given = device_name supported) \<and>
     streams_and_motions_covered supported given"
  by (auto simp: config_is_satisfying_def streams_loop_iff motions_loop_iff all_stream_types
      all_motion_types streams_and_motions_covered_def is_the_device_in_the_current_config_valid_def
      is_satisfying_stream_config_def Let_def)

lemma attempted_supersets_append:
  "attempted_supersets (a @ b) = attempted_supersets a @ attempted_supersets b"
  by (induction a rule: attempted_supersets.induct) simp_all

lemma get_satisfying_found:
  assumes "\<forall>p \<in> set ps. is_there_a_satisfying_module_config (module_at env p) x = Some (Some (sat p))"
  shows "get_satisfying_modules_configurations env dm x ps acc =
           Some (Some (\<lambda>q. if q \<in> set ps
                            then Some (create_actual_config_from_supported_config env dm (sat q),
                                       async_processing (sat q), samples_time_sync_mode (sat q))
                            else acc q))"
  using assms
proof (induction ps arbitrary: acc)
  case Nil
  then show ?case by simp
next
  case (Cons p ps)
  show ?case using Cons.prems
    by (simp add: Cons.IH Let_def) (rule ext, auto)
qed

lemma get_satisfying_missing:
  assumes "\<forall>p \<in> set ps. \<exists>r. is_there_a_satisfying_module_config (module_at env p) x = Some r"
      and "\<exists>p \<in> set ps. is_there_a_satisfying_module_config (module_at env p) x = Some None"
  shows "get_satisfying_modules_configurations env dm x ps acc = Some None"
  using assms
proof (induction ps arbitrary: acc)
  case Nil
  then show ?case by simp
next
  case (Cons p ps)
  then obtain r where r: "is_there_a_satisfying_module_config (module_at env p) x = Some r" by auto
  show ?case
  proof (cases r)
    case None
    with r show ?thesis by simp
  next
    case (Some c)
    with r Cons.prems have "\<exists>p \<in> set ps. is_there_a_satisfying_module_config (module_at env p) x = Some None"
      by auto
    with Cons.prems r Some show ?thesis by (simp add: Cons.IH Let_def)
  qed
qed

lemma set_the_configurations:
  assumes "\<forall>p \<in> set ps. mc p = Some (e p)"
  shows "\<exists>st applied. set_the_satisfying_modules_configurations env ps mc = (st, mc, applied) \<and>
           attempted_supersets applied = [] \<and>
           (status_less st status_no_error \<longleftrightarrow>
              (\<exists>p \<in> set ps. status_less (set_module_config (module_at env p) (fst (e p))) status_no_error))"
  using assms
proof (induction ps)
  case Nil
  then show ?case by (simp add: status_less_def)
next
  case (Cons p ps)
  then obtain st applied where
    rest: "set_the_satisfying_modules_configurations env ps mc = (st, mc, applied)"
      "attempted_supersets applied = []"
      "status_less st status_no_error \<longleftrightarrow>
         (\<exists>p \<in> set ps. status_less (set_module_config (module_at env p) (fst (e p))) status_no_error)"
    by auto
  from Cons.prems have sub: "map_subscript mc p = (mc, e p)" by (simp add: map_subscript_def)
  show ?case using rest by (simp add: sub Let_def)
qed


subsection \<open>The example module\<close>

lemma ends_declaring: "enumeration_ends_at (module_declaring cs) (length cs)"
  by (simp add: enumeration_ends_at_def module_declaring_def status_less_def)

lemma declared_declaring: "declared_configs (module_declaring cs) 0 (length cs) = cs"
  by (rule nth_equalityI) (simp_all add: declared_configs_def module_declaring_def)

lemma matcher_of_module_declaring:
  "is_there_a_satisfying_module_config (module_declaring cs) g = Some (find (config_is_satisfying g) cs)"
  using matcher_of_ended_enumeration [OF ends_declaring, of cs g] by (simp add: declared_declaring)

lemma covered_depth_only:
  "streams_and_motions_covered (vga_depth_only a r) (vga_depth_only b q) \<longleftrightarrow> (r = q \<or> r = 0)"
  by (auto simp: streams_and_motions_covered_def vga_depth_only_def zero_module_config_def
      zero_image_stream_config_def zero_motion_sensor_config_def)

lemma name_depth_only: "device_name (vga_depth_only a r) = a"
  by (simp add: vga_depth_only_def)

lemma satisfying_depth_only:
  "config_is_satisfying (vga_depth_only b q) (vga_depth_only a r) \<longleftrightarrow> (b = [] \<or> b = a) \<and> (r = q \<or> r = 0)"
  by (simp add: config_is_satisfying_iff covered_depth_only name_depth_only)

subsection \<open>The configuration matcher\<close>

text \<open>
  The tracker declares a configuration for a device called D400 first. For a superset that
  names the attached camera and enables depth at 30 frames, the streams of that first
  candidate are covered, yet the matcher does not return it: it reports no match.
\<close>

theorem matcher_ignores_device_name_counterexample:
  "find (\<lambda>c. streams_and_motions_covered c (vga_depth_only ''Intel RealSense ZR300'' 30))
      (declared_configs tracker 0 2) = Some (vga_depth_only ''D400'' 30) \<and>
   is_there_a_satisfying_module_config tracker (vga_depth_only ''Intel RealSense ZR300'' 30) = Some None"
proof -
  have "declared_configs tracker 0 2 = [vga_depth_only ''D400'' 30, vga_depth_only [] 0]"
    using declared_declaring [of "[vga_depth_only ''D400'' 30, vga_depth_only [] 0]"]
    by (simp add: tracker_def numeral_2_eq_2)
  then show ?thesis
    by (simp add: tracker_def matcher_of_module_declaring satisfying_depth_only covered_depth_only)
qed

text \<open>
  C4, amended. For a module whose enumeration ends, the matcher returns the first
  candidate, in the order of enumeration, for which the superset names no device or the
  device of the candidate, every stream the candidate marks enabled is enabled in the
  superset with equal width and height and either equal frame rate or candidate frame
  rate 0, and every motion sensor the candidate marks enabled is enabled in the superset.
  So when the candidates at index 0 and 1 both pass, the one at index 0 is returned. When
  no candidate passes, the matcher reports no match.
\<close>

theorem first_satisfying_candidate:
  assumes "enumeration_ends_at cv_module n"
  shows "\<exists>r. is_there_a_satisfying_module_config cv_module superset = Some r \<and>
           (\<forall>c. r = Some c \<longleftrightarrow>
              (\<exists>k < n. c = snd (query_supported_module_config cv_module k) \<and>
                 satisfies_superset (snd (query_supported_module_config cv_module k)) superset \<and>
                 (\<forall>j < k. \<not> satisfies_superset (snd (query_supported_module_config cv_module j)) superset))) \<and>
           (r = None \<longleftrightarrow>
              (\<forall>k < n. \<not> satisfies_superset (snd (query_supported_module_config cv_module k)) superset))"
proof -
  let ?cs = "declared_configs cv_module 0 n"
  have sat: "config_is_satisfying superset c = satisfies_superset c superset" for c
    by (simp add: config_is_satisfying_iff satisfies_superset_def)
  have len: "length ?cs = n" by (simp add: declared_configs_def)
  have nth: "k < n \<Longrightarrow> ?cs ! k = snd (query_supported_module_config cv_module k)" for k
    by (simp add: declared_configs_def)
  have m: "is_there_a_satisfying_module_config cv_module superset = Some (find (config_is_satisfying superset) ?cs)"
    by (rule matcher_of_ended_enumeration [OF assms])
  have some: "find (config_is_satisfying superset) ?cs = Some c \<longleftrightarrow>
      (\<exists>k < n. c = snd (query_supported_module_config cv_module k) \<and>
         satisfies_superset (snd (query_supported_module_config cv_module k)) superset \<and>
         (\<forall>j < k. \<not> satisfies_superset (snd (query_supported_module_config cv_module j)) superset))" for c
  proof
    assume "find (config_is_satisfying superset) ?cs = Some c"
    then obtain k where k: "k < n" "satisfies_superset (?cs ! k) superset" "c = ?cs ! k"
        "\<forall>j < k. \<not> satisfies_superset (?cs ! j) superset"
      unfolding find_Some_iff len sat by blast
    then show "\<exists>k < n. c = snd (query_supported_module_config cv_module k) \<and>
         satisfies_superset (snd (query_supported_module_config cv_module k)) superset \<and>
         (\<forall>j < k. \<not> satisfies_superset (snd (query_supported_module_config cv_module j)) superset)"
      by (intro exI [of _ k]) (simp add: nth)
  next
    assume "\<exists>k < n. c = snd (query_supported_module_config cv_module k) \<and>
         satisfies_superset (snd (query_supported_module_config cv_module k)) superset \<and>
         (\<forall>j < k. \<not> satisfies_superset (snd (query_supported_module_config cv_module j)) superset)"
    then obtain k where "k < n" "c = snd (query_supported_module_config cv_module k)"
        "satisfies_superset (snd (query_supported_module_config cv_module k)) superset"
        "\<forall>j < k. \<not> satisfies_superset (snd (query_supported_module_config cv_module j)) superset"
      by blast
    then show "find (config_is_satisfying superset) ?cs = Some c"
      unfolding find_Some_iff len sat by (intro exI [of _ k]) (simp add: nth)
  qed
  have none: "find (config_is_satisfying superset) ?cs = None \<longleftrightarrow>
      (\<forall>k < n. \<not> satisfies_superset (snd (query_supported_module_config cv_module k)) superset)"
    unfolding find_None_iff sat by (auto simp: declared_configs_def)
  show ?thesis using m some none by simp
qed

theorem first_satisfying_candidate_witness:
  "is_there_a_satisfying_module_config tracker (vga_depth_only [] 30) = Some (Some (vga_depth_only ''D400'' 30)) \<and>
   satisfies_superset (vga_depth_only [] 0) (vga_depth_only [] 30)"
proof -
  have e: "enumeration_ends_at tracker 2"
    using ends_declaring [of "[vga_depth_only ''D400'' 30, vga_depth_only [] 0]"]
    by (simp add: tracker_def numeral_2_eq_2)
  have q: "snd (query_supported_module_config tracker 0) = vga_depth_only ''D400'' 30"
    by (simp add: tracker_def module_declaring_def)
  have s: "satisfies_superset (vga_depth_only ''D400'' 30) (vga_depth_only [] 30)"
        "satisfies_superset (vga_depth_only [] 0) (vga_depth_only [] 30)"
    by (simp_all add: satisfies_superset_def covered_depth_only name_depth_only)
  from first_satisfying_candidate [OF e, of "vga_depth_only [] 30"] obtain r where
    r: "is_there_a_satisfying_module_config tracker (vga_depth_only [] 30) = Some r"
    and c: "\<And>c. r = Some c \<longleftrightarrow>
              (\<exists>k < 2. c = snd (query_supported_module_config tracker k) \<and>
                 satisfies_superset (snd (query_supported_module_config tracker k)) (vga_depth_only [] 30) \<and>
                 (\<forall>j < k. \<not> satisfies_superset (snd (query_supported_module_config tracker j)) (vga_depth_only [] 30)))"
    by blast
  have "r = Some (vga_depth_only ''D400'' 30)"
    unfolding c by (rule exI [of _ 0]) (simp add: q s)
  with r s show ?thesis by simp
qed

text \<open>
  The device-name condition of the specification and the check of the code differ in both
  directions. A candidate with an empty device name is skipped for a superset that names
  the camera; a candidate for a device called D400 is returned for a superset that names
  no device.
\<close>

theorem device_name_condition_counterexample:
  "device_name_condition_of_the_spec (vga_depth_only [] 0) (vga_depth_only ''Intel RealSense ZR300'' 30) \<and>
   \<not> is_the_device_in_the_current_config_valid (vga_depth_only ''Intel RealSense ZR300'' 30) (vga_depth_only [] 0) \<and>
   is_there_a_satisfying_module_config (module_declaring [vga_depth_only [] 0])
       (vga_depth_only ''Intel RealSense ZR300'' 30) = Some None \<and>
   \<not> device_name_condition_of_the_spec (vga_depth_only ''D400'' 30) (vga_depth_only [] 30) \<and>
   is_the_device_in_the_current_config_valid (vga_depth_only [] 30) (vga_depth_only ''D400'' 30) \<and>
   is_there_a_satisfying_module_config (module_declaring [vga_depth_only ''D400'' 30])
       (vga_depth_only [] 30) = Some (Some (vga_depth_only ''D400'' 30))"
  by (simp add: device_name_condition_of_the_spec_def is_the_device_in_the_current_config_valid_def
      name_depth_only matcher_of_module_declaring satisfying_depth_only)

text \<open>
  C5, amended. For every candidate a module answers without an error and every superset,
  the matcher passes the candidate on the device name exactly when the device name of the
  superset is empty or equals the device name of the candidate. A candidate whose device
  name differs from the non-empty device name of the superset is skipped, the search going
  on at the next index; a candidate that passes and whose streams and motion sensors are
  covered is returned; and a candidate the matcher returns has passed.
\<close>

theorem device_name_condition:
  "(is_the_device_in_the_current_config_valid superset candidate \<longleftrightarrow>
      device_name superset = [] \<or> device_name superset = device_name candidate) \<and>
   (\<not> status_less (fst (query_supported_module_config cv_module i)) status_no_error \<and>
    candidate = snd (query_supported_module_config cv_module i) \<longrightarrow>
      (device_name superset \<noteq> [] \<and> device_name superset \<noteq> device_name candidate \<longrightarrow>
         satisfying_module_config_from cv_module superset i
           = satisfying_module_config_from cv_module superset (i + 1)) \<and>
      ((device_name superset = [] \<or> device_name superset = device_name candidate) \<and>
       streams_and_motions_covered candidate superset \<longrightarrow>
         satisfying_module_config_from cv_module superset i = Some (Some candidate))) \<and>
   (\<forall>n. enumeration_ends_at cv_module n \<and>
        is_there_a_satisfying_module_config cv_module superset = Some (Some candidate) \<longrightarrow>
        device_name superset = [] \<or> device_name superset = device_name candidate)"
proof (intro conjI impI allI)
  show "is_the_device_in_the_current_config_valid superset candidate \<longleftrightarrow>
      device_name superset = [] \<or> device_name superset = device_name candidate"
    by (simp add: is_the_device_in_the_current_config_valid_def)
next
  assume a: "\<not> status_less (fst (query_supported_module_config cv_module i)) status_no_error \<and>
    candidate = snd (query_supported_module_config cv_module i)"
    and b: "device_name superset \<noteq> [] \<and> device_name superset \<noteq> device_name candidate"
  show "satisfying_module_config_from cv_module superset i
           = satisfying_module_config_from cv_module superset (i + 1)"
    using a b
    by (subst satisfying_module_config_from.simps)
       (simp add: Let_def is_the_device_in_the_current_config_valid_def)
next
  assume a: "\<not> status_less (fst (query_supported_module_config cv_module i)) status_no_error \<and>
    candidate = snd (query_supported_module_config cv_module i)"
    and b: "(device_name superset = [] \<or> device_name superset = device_name candidate) \<and>
       streams_and_motions_covered candidate superset"
  from b have "config_is_satisfying superset candidate" by (simp add: config_is_satisfying_iff)
  then show "satisfying_module_config_from cv_module superset i = Some (Some candidate)"
    using a
    by (subst satisfying_module_config_from.simps)
       (simp add: Let_def config_is_satisfying_def)
next
  fix n
  assume a: "enumeration_ends_at cv_module n \<and>
        is_there_a_satisfying_module_config cv_module superset = Some (Some candidate)"
  then have "find (config_is_satisfying superset) (declared_configs cv_module 0 n) = Some candidate"
    using matcher_of_ended_enumeration [of cv_module n superset] by simp
  then have "config_is_satisfying superset candidate" by (auto simp: find_Some_iff)
  then show "device_name superset = [] \<or> device_name superset = device_name candidate"
    by (simp add: config_is_satisfying_iff)
qed

theorem device_name_condition_witness:
  "satisfying_module_config_from tracker (vga_depth_only ''Intel RealSense ZR300'' 30) 1
     = satisfying_module_config_from tracker (vga_depth_only ''Intel RealSense ZR300'' 30) (1 + 1) \<and>
   satisfying_module_config_from tracker (vga_depth_only [] 30) 0 = Some (Some (vga_depth_only ''D400'' 30))"
proof -
  note step = device_name_condition [THEN conjunct2, THEN conjunct1, rule_format]
  have q1: "\<not> status_less (fst (query_supported_module_config tracker 1)) status_no_error \<and>
            vga_depth_only [] 0 = snd (query_supported_module_config tracker 1)"
    by (simp add: tracker_def module_declaring_def status_less_def)
  have q0: "\<not> status_less (fst (query_supported_module_config tracker 0)) status_no_error \<and>
            vga_depth_only ''D400'' 30 = snd (query_supported_module_config tracker 0)"
    by (simp add: tracker_def module_declaring_def status_less_def)
  have n1: "device_name (vga_depth_only ''Intel RealSense ZR300'' 30) \<noteq> [] \<and>
            device_name (vga_depth_only ''Intel RealSense ZR300'' 30) \<noteq> device_name (vga_depth_only [] 0)"
    by (simp add: name_depth_only)
  have n0: "(device_name (vga_depth_only [] 30) = [] \<or>
             device_name (vga_depth_only [] 30) = device_name (vga_depth_only ''D400'' 30)) \<and>
            streams_and_motions_covered (vga_depth_only ''D400'' 30) (vga_depth_only [] 30)"
    by (simp add: name_depth_only covered_depth_only)
  from step [OF q1, THEN conjunct1, rule_format, OF n1]
       step [OF q0, THEN conjunct2, rule_format, OF n0]
  show ?thesis by (rule conjI)
qed


subsection \<open>The loop over the supersets\<close>

lemma after_events_Some [simp]: "after_events evs (Some (st, s, e)) = Some (st, s, evs @ e)"
  by (simp add: after_events_def)

lemma attempted_resets [simp]: "attempted_supersets (map Reset_config ps) = []"
  by (induction ps) simp_all

lemma matcher_returns:
  assumes "\<forall>p \<in> set ps. \<exists>n. enumeration_ends_at (module_at env p) n"
  shows "\<forall>p \<in> set ps. \<exists>r. is_there_a_satisfying_module_config (module_at env p) x = Some r"
  using assms matcher_of_ended_enumeration by blast

lemma try_supersets_rejected:
  assumes ends: "\<forall>p \<in> set (m_cv_modules s). \<exists>n. enumeration_ends_at (module_at env p) n"
      and rej: "\<not> superset_accepted env (m_cv_modules s) x"
  shows "\<exists>evs. try_supersets env config (x # rest) s =
           after_events
             ((case m_device_manager s of None \<Rightarrow> [] | Some old \<Rightarrow> [Destroy_device_manager old])
                @ Construct_device_manager (get_device_from_config env x) x # evs)
             (try_supersets env config rest (s\<lparr>m_device_manager := None\<rparr>)) \<and>
         attempted_supersets evs = []"
proof -
  let ?ps = "m_cv_modules s"
  let ?d = "get_device_from_config env x"
  let ?dm = "\<lparr>underlying_device = ?d, device_config = x\<rparr>"
  let ?m = "\<lambda>p. is_there_a_satisfying_module_config (module_at env p) x"
  show ?thesis
  proof (cases "device_manager_throws env ?d x")
    case True
    then show ?thesis by (intro exI [of _ "[]"]) (simp add: Let_def)
  next
    case False
    note ret = matcher_returns [OF ends, of x]
    show ?thesis
    proof (cases "\<exists>p \<in> set ?ps. ?m p = Some None")
      case True
      have "get_satisfying_modules_configurations env ?dm x ?ps Map.empty = Some None"
        by (rule get_satisfying_missing [OF ret True])
      with False show ?thesis
        by (intro exI [of _ "[Destroy_device_manager ?dm]"]) (simp add: Let_def)
    next
      case all: False
      define sat where "sat p = the (the (?m p))" for p
      have found: "\<forall>p \<in> set ?ps. ?m p = Some (Some (sat p))"
      proof
        fix p assume p: "p \<in> set ?ps"
        with ret obtain r where r: "?m p = Some r" by blast
        with all p have "r \<noteq> None" by auto
        with r show "?m p = Some (Some (sat p))" by (auto simp: sat_def)
      qed
      let ?e = "\<lambda>q. (create_actual_config_from_supported_config env ?dm (sat q),
                        async_processing (sat q), samples_time_sync_mode (sat q))"
      define mc where "mc = (\<lambda>q. if q \<in> set ?ps then Some (?e q) else None)"
      have g: "get_satisfying_modules_configurations env ?dm x ?ps Map.empty = Some (Some mc)"
        by (simp add: mc_def get_satisfying_found [OF found])
      have "\<forall>p \<in> set ?ps. mc p = Some (?e p)" by (simp add: mc_def)
      from set_the_configurations [OF this, of env] obtain st applied where
        ap: "set_the_satisfying_modules_configurations env ?ps mc = (st, mc, applied)"
            "attempted_supersets applied = []"
            "status_less st status_no_error \<longleftrightarrow>
               (\<exists>p \<in> set ?ps. status_less (set_module_config (module_at env p) (fst (?e p))) status_no_error)"
        by blast
      from rej False found have "\<exists>p \<in> set ?ps.
          status_less (set_module_config (module_at env p) (fst (?e p))) status_no_error"
        by (auto simp: superset_accepted_def)
      with ap have "status_less st status_no_error" by simp
      with False g ap show ?thesis
        by (intro exI [of _ "applied @ map Reset_config ?ps @ [Destroy_device_manager ?dm]"])
           (simp add: Let_def attempted_supersets_append)
    qed
  qed
qed

lemma try_supersets_accepted:
  assumes ends: "\<forall>p \<in> set (m_cv_modules s). \<exists>n. enumeration_ends_at (module_at env p) n"
      and acc: "superset_accepted env (m_cv_modules s) x"
  shows "\<exists>applied mc. try_supersets env config (x # rest) s =
           Some (status_no_error,
                 s\<lparr>m_modules_configs := mc,
                    m_device_manager := Some \<lparr>underlying_device = get_device_from_config env x, device_config = x\<rparr>,
                    m_user_requested_time_sync_mode := samples_time_sync_mode config\<rparr>,
                 (case m_device_manager s of None \<Rightarrow> [] | Some old \<Rightarrow> [Destroy_device_manager old])
                   @ Construct_device_manager (get_device_from_config env x) x # applied) \<and>
         attempted_supersets applied = [] \<and>
         dom mc = set (m_cv_modules s) \<and>
         (\<forall>p \<in> set (m_cv_modules s). \<exists>c.
            is_there_a_satisfying_module_config (module_at env p) x = Some (Some c) \<and>
            mc p = Some (create_actual_config_from_supported_config env
                           \<lparr>underlying_device = get_device_from_config env x, device_config = x\<rparr> c,
                         async_processing c, samples_time_sync_mode c))"
proof -
  let ?ps = "m_cv_modules s"
  let ?d = "get_device_from_config env x"
  let ?dm = "\<lparr>underlying_device = ?d, device_config = x\<rparr>"
  let ?m = "\<lambda>p. is_there_a_satisfying_module_config (module_at env p) x"
  from acc have nothrow: "\<not> device_manager_throws env ?d x"
    by (simp add: superset_accepted_def)
  define sat where "sat p = the (the (?m p))" for p
  from acc have found: "\<forall>p \<in> set ?ps. ?m p = Some (Some (sat p))"
    by (auto simp: superset_accepted_def sat_def)
  let ?e = "\<lambda>q. (create_actual_config_from_supported_config env ?dm (sat q),
                    async_processing (sat q), samples_time_sync_mode (sat q))"
  define mc where "mc = (\<lambda>q. if q \<in> set ?ps then Some (?e q) else None)"
  have g: "get_satisfying_modules_configurations env ?dm x ?ps Map.empty = Some (Some mc)"
    by (simp add: mc_def get_satisfying_found [OF found])
  have "\<forall>p \<in> set ?ps. mc p = Some (?e p)" by (simp add: mc_def)
  from set_the_configurations [OF this, of env] obtain st applied where
    ap: "set_the_satisfying_modules_configurations env ?ps mc = (st, mc, applied)"
        "attempted_supersets applied = []"
        "status_less st status_no_error \<longleftrightarrow>
           (\<exists>p \<in> set ?ps. status_less (set_module_config (module_at env p) (fst (?e p))) status_no_error)"
    by blast
  from acc found have "\<not> (\<exists>p \<in> set ?ps.
      status_less (set_module_config (module_at env p) (fst (?e p))) status_no_error)"
    by (auto simp: superset_accepted_def)
  with ap have ok: "\<not> status_less st status_no_error" by simp
  have d: "dom mc = set ?ps" by (auto simp: mc_def split: if_splits)
  have each: "\<forall>p \<in> set ?ps. \<exists>c. ?m p = Some (Some c) \<and>
      mc p = Some (create_actual_config_from_supported_config env ?dm c,
                   async_processing c, samples_time_sync_mode c)"
    using found by (auto simp: mc_def)
  have "try_supersets env config (x # rest) s =
          Some (status_no_error,
                s\<lparr>m_modules_configs := mc, m_device_manager := Some ?dm,
                   m_user_requested_time_sync_mode := samples_time_sync_mode config\<rparr>,
                (case m_device_manager s of None \<Rightarrow> [] | Some old \<Rightarrow> [Destroy_device_manager old])
                  @ Construct_device_manager ?d x # applied)"
    using nothrow g ap ok by (simp add: Let_def)
  with ap(2) d each show ?thesis by blast
qed


lemma try_supersets_none_accepted:
  assumes "\<forall>p \<in> set (m_cv_modules s). \<exists>n. enumeration_ends_at (module_at env p) n"
      and "\<forall>y \<in> set xs. \<not> superset_accepted env (m_cv_modules s) y"
  shows "\<exists>evs. try_supersets env config xs s =
           Some (status_match_not_found, (if xs = [] then s else s\<lparr>m_device_manager := None\<rparr>), evs) \<and>
         attempted_supersets evs = xs \<and>
         (xs \<noteq> [] \<longrightarrow>
            (\<exists>tail. evs = (case m_device_manager s of None \<Rightarrow> [] | Some old \<Rightarrow> [Destroy_device_manager old])
                            @ Construct_device_manager (get_device_from_config env (hd xs)) (hd xs) # tail))"
  using assms
proof (induction xs arbitrary: s)
  case Nil
  then show ?case by simp
next
  case (Cons x xs)
  let ?s1 = "s\<lparr>m_device_manager := None\<rparr>"
  from Cons.prems have rej: "\<not> superset_accepted env (m_cv_modules s) x" by simp
  from try_supersets_rejected [OF Cons.prems(1) rej, of config xs] obtain evs where
    step: "try_supersets env config (x # xs) s =
             after_events
               ((case m_device_manager s of None \<Rightarrow> [] | Some old \<Rightarrow> [Destroy_device_manager old])
                  @ Construct_device_manager (get_device_from_config env x) x # evs)
               (try_supersets env config xs ?s1)"
    and quiet: "attempted_supersets evs = []"
    by blast
  have "\<forall>p \<in> set (m_cv_modules ?s1). \<exists>n. enumeration_ends_at (module_at env p) n"
    and "\<forall>y \<in> set xs. \<not> superset_accepted env (m_cv_modules ?s1) y"
    using Cons.prems by simp_all
  from Cons.IH [OF this] obtain evs' where
    rest: "try_supersets env config xs ?s1 = Some (status_match_not_found, ?s1, evs')"
    and att: "attempted_supersets evs' = xs"
    by (auto split: if_splits)
  show ?case
    unfolding step rest
    by (intro exI [of _ "(case m_device_manager s of None \<Rightarrow> [] | Some old \<Rightarrow> [Destroy_device_manager old])
                  @ Construct_device_manager (get_device_from_config env x) x # evs @ evs'"])
       (simp add: attempted_supersets_append quiet att split: option.splits)
qed

lemma try_supersets_first_accepted:
  assumes "\<forall>p \<in> set (m_cv_modules s). \<exists>n. enumeration_ends_at (module_at env p) n"
      and "\<forall>y \<in> set pre. \<not> superset_accepted env (m_cv_modules s) y"
      and "superset_accepted env (m_cv_modules s) x"
  shows "\<exists>evs mc. try_supersets env config (pre @ x # post) s =
           Some (status_no_error,
                 s\<lparr>m_modules_configs := mc,
                    m_device_manager := Some \<lparr>underlying_device = get_device_from_config env x, device_config = x\<rparr>,
                    m_user_requested_time_sync_mode := samples_time_sync_mode config\<rparr>,
                 evs) \<and>
         attempted_supersets evs = pre @ [x] \<and>
         dom mc = set (m_cv_modules s) \<and>
         (\<forall>p \<in> set (m_cv_modules s). \<exists>c.
            is_there_a_satisfying_module_config (module_at env p) x = Some (Some c) \<and>
            mc p = Some (create_actual_config_from_supported_config env
                           \<lparr>underlying_device = get_device_from_config env x, device_config = x\<rparr> c,
                         async_processing c, samples_time_sync_mode c)) \<and>
         (\<exists>tail. evs = (case m_device_manager s of None \<Rightarrow> [] | Some old \<Rightarrow> [Destroy_device_manager old])
                         @ Construct_device_manager (get_device_from_config env (hd (pre @ [x]))) (hd (pre @ [x])) # tail)"
  using assms
proof (induction pre arbitrary: s)
  case Nil
  from try_supersets_accepted [OF Nil(1) Nil(3), of config post]
  show ?case by (auto simp: attempted_supersets_append split: option.splits)
next
  case (Cons y pre)
  let ?s1 = "s\<lparr>m_device_manager := None\<rparr>"
  from Cons.prems have rej: "\<not> superset_accepted env (m_cv_modules s) y" by simp
  from try_supersets_rejected [OF Cons.prems(1) rej, of config "pre @ x # post"] obtain evs where
    step: "try_supersets env config (y # pre @ x # post) s =
             after_events
               ((case m_device_manager s of None \<Rightarrow> [] | Some old \<Rightarrow> [Destroy_device_manager old])
                  @ Construct_device_manager (get_device_from_config env y) y # evs)
               (try_supersets env config (pre @ x # post) ?s1)"
    and quiet: "attempted_supersets evs = []"
    by blast
  have "\<forall>p \<in> set (m_cv_modules ?s1). \<exists>n. enumeration_ends_at (module_at env p) n"
    and "\<forall>y \<in> set pre. \<not> superset_accepted env (m_cv_modules ?s1) y"
    and "superset_accepted env (m_cv_modules ?s1) x"
    using Cons.prems by simp_all
  from Cons.IH [OF this] obtain evs' mc where
    rest: "try_supersets env config (pre @ x # post) ?s1 =
             Some (status_no_error,
                   ?s1\<lparr>m_modules_configs := mc,
                      m_device_manager := Some \<lparr>underlying_device = get_device_from_config env x, device_config = x\<rparr>,
                      m_user_requested_time_sync_mode := samples_time_sync_mode config\<rparr>,
                   evs')"
    and att: "attempted_supersets evs' = pre @ [x]"
    and d: "dom mc = set (m_cv_modules s)"
    and each: "\<forall>p \<in> set (m_cv_modules s). \<exists>c.
            is_there_a_satisfying_module_config (module_at env p) x = Some (Some c) \<and>
            mc p = Some (create_actual_config_from_supported_config env
                           \<lparr>underlying_device = get_device_from_config env x, device_config = x\<rparr> c,
                         async_processing c, samples_time_sync_mode c)"
    by auto
  have full: "try_supersets env config ((y # pre) @ x # post) s =
      Some (status_no_error,
            s\<lparr>m_modules_configs := mc,
               m_device_manager := Some \<lparr>underlying_device = get_device_from_config env x, device_config = x\<rparr>,
               m_user_requested_time_sync_mode := samples_time_sync_mode config\<rparr>,
            (case m_device_manager s of None \<Rightarrow> [] | Some old \<Rightarrow> [Destroy_device_manager old])
              @ Construct_device_manager (get_device_from_config env y) y # evs @ evs')"
    unfolding append_Cons step rest by simp
  show ?case
    unfolding full
    apply (rule exI [of _ "(case m_device_manager s of None \<Rightarrow> [] | Some old \<Rightarrow> [Destroy_device_manager old])
                  @ Construct_device_manager (get_device_from_config env y) y # evs @ evs'"])
    apply (rule exI [of _ mc])
    using d each
    apply (simp add: attempted_supersets_append quiet att split: option.splits)
    done
qed

subsection \<open>The example installation, evaluated\<close>

lemma installation_simps [simp]:
  "context_devices (installation ms t) = [zr300]"
  "module_at (installation ms t) = ms"
  "generete_matching_supersets (installation ms t) = one_of_each_group"
  "device_manager_throws (installation ms t) d c = (d = None)"
  "device_start_throws (installation ms t) dm = t"
  "create_actual_config_from_supported_config (installation ms t) = actual_of"
  "device_query_current_config (installation ms t) dm = actual_of dm (device_config dm)"
  by (simp_all add: installation_def)

lemma hardcoded_simps [simp]:
  "is_config_empty get_hardcoded_superset_config = False"
  "device_name get_hardcoded_superset_config = []"
  "samples_time_sync_mode get_hardcoded_superset_config = sync_not_required"
  "is_config_empty absent_camera_config = False"
  "device_name absent_camera_config = ''D400''"
  "samples_time_sync_mode absent_camera_config = sync_not_required"
  "is_config_empty zero_module_config = True"
  by (simp_all add: is_config_empty_def get_hardcoded_superset_config_def absent_camera_config_def
      zero_module_config_def zero_image_stream_config_def zero_motion_sensor_config_def
      stream_types_def motion_types_def Let_def)

lemma one_of_each_single [simp]: "one_of_each_group [[c]] = [c]"
  by (simp add: one_of_each_group_def)

lemma get_device_camera [simp]:
  "get_device_from_config (installation ms t) c =
     (if device_name c = [] \<or> device_name c = ''Intel RealSense ZR300'' then Some zr300 else None)"
  by (simp add: get_device_from_config_def zr300_def Let_def)

lemma set_config_hardcoded:
  "set_config camera_only get_hardcoded_superset_config new_pipeline =
     Some (status_no_error, committed_hardcoded,
           [Construct_device_manager (Some zr300) get_hardcoded_superset_config])"
  by (simp add: set_config_def set_config_unsafe_def camera_only_def committed_hardcoded_def
      new_pipeline_def status_less_def Let_def)

lemma set_config_absent_camera:
  "set_config camera_only absent_camera_config committed_hardcoded =
     Some (status_match_not_found, committed_hardcoded\<lparr>m_device_manager := None\<rparr>,
           [Destroy_device_manager \<lparr>underlying_device = Some zr300, device_config = get_hardcoded_superset_config\<rparr>,
            Construct_device_manager None absent_camera_config])"
  by (simp add: set_config_def set_config_unsafe_def camera_only_def committed_hardcoded_def
      new_pipeline_def status_less_def Let_def)

lemma set_config_empty_request:
  "set_config camera_only zero_module_config committed_hardcoded =
     Some (status_invalid_argument, committed_hardcoded, [])"
  by (simp add: set_config_def set_config_unsafe_def camera_only_def committed_hardcoded_def
      new_pipeline_def)

lemma start_committed_hardcoded:
  "start camera_only None committed_hardcoded =
     Some (Returns (status_no_error, streaming_hardcoded,
                    [Device_start \<lparr>underlying_device = Some zr300, device_config = get_hardcoded_superset_config\<rparr>]))"
  by (simp add: start_def start_configured_def camera_only_def committed_hardcoded_def
      streaming_hardcoded_def new_pipeline_def Let_def)

subsection \<open>Starting a pipeline that was never configured\<close>

text \<open>
  With a camera attached whose device manager is constructed for the hardcoded
  configuration and starts, \<^verbatim>\<open>start\<close> on a new pipeline without modules fails
  with invalid-argument and leaves the pipeline unconfigured.
\<close>

theorem start_without_modules_counterexample:
  "start camera_only (Some 7) new_pipeline = Some (Returns (status_invalid_argument, new_pipeline, [])) \<and>
   m_current_state new_pipeline = unconfigured \<and> m_cv_modules new_pipeline = [] \<and>
   \<not> device_start_throws camera_only \<lparr>underlying_device = Some zr300, device_config = get_hardcoded_superset_config\<rparr> \<and>
   \<not> device_manager_throws camera_only (Some zr300) get_hardcoded_superset_config"
  by (simp add: start_def set_config_unsafe_def new_pipeline_def camera_only_def status_less_def)

text \<open>
  C1, amended. Calling \<^verbatim>\<open>start\<close> in the unconfigured state with no module
  registered fails with invalid-argument: the empty request of the automatic
  configuration is refused before any superset is generated, no collaborator is called,
  and the pipeline stays as it was, unconfigured. The hardcoded default configuration
  (depth, color, infrared, infrared2 and fisheye at 640x480 and 30 frames, accelerometer
  at 250 Hz, gyroscope at 200 Hz, no time synchronisation required) is what
  \<^verbatim>\<open>query_default_config\<close> reports at index 0.
\<close>

theorem start_without_modules:
  assumes "m_current_state s = unconfigured" and "m_cv_modules s = []"
  shows "start env handler s = Some (Returns (status_invalid_argument, s, [])) \<and>
         query_default_config 0 = (status_no_error, Some get_hardcoded_superset_config) \<and>
         (\<forall>t. image_streams_configs get_hardcoded_superset_config t
               = \<lparr>width = 640, height = 480, frame_rate = 30, flags = 0, is_enabled = True\<rparr>) \<and>
         motion_sensors_configs get_hardcoded_superset_config accel
               = \<lparr>sample_rate = 250, motion_flags = 0, motion_is_enabled = True\<rparr> \<and>
         motion_sensors_configs get_hardcoded_superset_config gyro
               = \<lparr>sample_rate = 200, motion_flags = 0, motion_is_enabled = True\<rparr> \<and>
         samples_time_sync_mode get_hardcoded_superset_config = sync_not_required"
proof -
  have "image_streams_configs get_hardcoded_superset_config t
          = \<lparr>width = 640, height = 480, frame_rate = 30, flags = 0, is_enabled = True\<rparr>" for t
    by (cases t) (simp_all add: get_hardcoded_superset_config_def Let_def)
  then show ?thesis
    using assms
    by (simp add: start_def set_config_unsafe_def status_less_def query_default_config_def)
       (simp add: get_hardcoded_superset_config_def Let_def)
qed

theorem start_without_modules_witness:
  "start camera_only None new_pipeline = Some (Returns (status_invalid_argument, new_pipeline, []))"
  using start_without_modules [of new_pipeline camera_only None]
  by (simp add: new_pipeline_def)

subsection \<open>What every reachable state satisfies\<close>

lemma map_subscript_dom: "dom m \<subseteq> dom (fst (map_subscript m k))"
  by (auto simp: map_subscript_def split: option.splits)

lemma map_subscript_present: "k \<in> dom m \<Longrightarrow> fst (map_subscript m k) = m"
  by (auto simp: map_subscript_def split: option.splits)

lemma get_satisfying_defined:
  "get_satisfying_modules_configurations env dm x ps acc = Some (Some mc) \<Longrightarrow>
   q \<in> set ps \<or> acc q \<noteq> None \<Longrightarrow> mc q \<noteq> None"
proof (induction ps arbitrary: acc)
  case Nil
  then show ?case by simp
next
  case (Cons p ps)
  from Cons.prems(1) obtain c where
    r: "get_satisfying_modules_configurations env dm x ps
       (acc(p \<mapsto> (create_actual_config_from_supported_config env dm c, async_processing c,
                   samples_time_sync_mode c))) = Some (Some mc)"
    by (auto simp: Let_def split: Option.bind_splits option.splits)
  from Cons.prems(2) have
    "q \<in> set ps \<or> (acc(p \<mapsto> (create_actual_config_from_supported_config env dm c, async_processing c,
                   samples_time_sync_mode c))) q \<noteq> None"
    by auto
  with Cons.IH [OF r] show ?case by blast
qed

lemma get_satisfying_dom:
  assumes "get_satisfying_modules_configurations env dm x ps acc = Some (Some mc)"
  shows "set ps \<subseteq> dom mc"
proof
  fix q assume "q \<in> set ps"
  with get_satisfying_defined [OF assms, of q] show "q \<in> dom mc" by (simp add: domIff)
qed

lemma set_the_dom:
  "dom mc \<subseteq> dom (fst (snd (set_the_satisfying_modules_configurations env ps mc)))"
proof (induction ps arbitrary: mc)
  case Nil
  then show ?case by simp
next
  case (Cons p ps)
  let ?mc1 = "fst (map_subscript mc p)"
  have a: "dom mc \<subseteq> dom ?mc1" by (rule map_subscript_dom)
  obtain st' mc' applied where r: "set_the_satisfying_modules_configurations env ps ?mc1 = (st', mc', applied)"
    by (cases "set_the_satisfying_modules_configurations env ps ?mc1") auto
  with Cons.IH [of ?mc1] have b: "dom ?mc1 \<subseteq> dom mc'" by simp
  have "fst (snd (set_the_satisfying_modules_configurations env (p # ps) mc)) = ?mc1 \<or>
        fst (snd (set_the_satisfying_modules_configurations env (p # ps) mc)) = mc'"
    by (simp add: Let_def r)
  then show ?case
  proof
    assume e: "fst (snd (set_the_satisfying_modules_configurations env (p # ps) mc)) = ?mc1"
    show ?thesis unfolding e by (rule a)
  next
    assume e: "fst (snd (set_the_satisfying_modules_configurations env (p # ps) mc)) = mc'"
    show ?thesis unfolding e using a b by (rule order_trans)
  qed
qed

lemma set_the_status:
  "\<not> status_less (fst (set_the_satisfying_modules_configurations env ps mc)) status_no_error \<Longrightarrow>
   fst (set_the_satisfying_modules_configurations env ps mc) = status_no_error"
proof (induction ps arbitrary: mc)
  case Nil
  then show ?case by simp
next
  case (Cons p ps)
  let ?mc1 = "fst (map_subscript mc p)"
  obtain st' mc' applied where r: "set_the_satisfying_modules_configurations env ps ?mc1 = (st', mc', applied)"
    by (cases "set_the_satisfying_modules_configurations env ps ?mc1") auto
  show ?case
  proof (cases "status_less (set_module_config (module_at env p) (fst (snd (map_subscript mc p)))) status_no_error")
    case True
    with Cons.prems show ?thesis by (simp add: Let_def)
  next
    case False
    with Cons.prems r have "\<not> status_less st' status_no_error" by (simp add: Let_def)
    with Cons.IH [of ?mc1] r have "st' = status_no_error" by simp
    with False r show ?thesis by (simp add: Let_def)
  qed
qed

lemma try_supersets_result:
  "try_supersets env config xs s = Some (st, s', evs) \<Longrightarrow>
   (st = status_no_error \<and> m_device_manager s' \<noteq> None \<and>
    set (m_cv_modules s') \<subseteq> dom (m_modules_configs s') \<and>
    m_cv_modules s' = m_cv_modules s \<and> m_current_state s' = m_current_state s \<and>
    m_samples_consumers s' = m_samples_consumers s) \<or>
   (st = status_match_not_found \<and> s' = (if xs = [] then s else s\<lparr>m_device_manager := None\<rparr>))"
proof (induction xs arbitrary: s st s' evs)
  case Nil
  then show ?case by simp
next
  case (Cons x xs)
  let ?s1 = "s\<lparr>m_device_manager := None\<rparr>"
  let ?d = "get_device_from_config env x"
  let ?dm = "\<lparr>underlying_device = ?d, device_config = x\<rparr>"
  have continue: ?case if "after_events e (try_supersets env config xs ?s1) = Some (st, s', evs)" for e
  proof -
    from that obtain evs' where "try_supersets env config xs ?s1 = Some (st, s', evs')"
      by (auto simp: after_events_def)
    from Cons.IH [OF this] show ?thesis by (auto split: if_splits)
  qed
  show ?case
  proof (cases "device_manager_throws env ?d x")
    case True
    with Cons.prems show ?thesis by (intro continue) (simp add: Let_def)
  next
    case False
    from Cons.prems False obtain found where
      g: "get_satisfying_modules_configurations env ?dm x (m_cv_modules s) Map.empty = Some found"
      by (auto simp: Let_def split: Option.bind_splits)
    show ?thesis
    proof (cases found)
      case None
      with Cons.prems False g show ?thesis by (intro continue) (simp add: Let_def)
    next
      case (Some mc)
      obtain st2 mc2 applied where
        ap: "set_the_satisfying_modules_configurations env (m_cv_modules s) mc = (st2, mc2, applied)"
        by (cases "set_the_satisfying_modules_configurations env (m_cv_modules s) mc") auto
      show ?thesis
      proof (cases "status_less st2 status_no_error")
        case True
        with Cons.prems False g Some ap show ?thesis by (intro continue) (simp add: Let_def)
      next
        case ok: False
        from g Some have "get_satisfying_modules_configurations env ?dm x (m_cv_modules s) Map.empty = Some (Some mc)"
          by simp
        then have "set (m_cv_modules s) \<subseteq> dom mc" by (rule get_satisfying_dom)
        moreover from set_the_dom [of mc env "m_cv_modules s"] ap have "dom mc \<subseteq> dom mc2" by simp
        ultimately have "set (m_cv_modules s) \<subseteq> dom mc2" by blast
        with Cons.prems False g Some ap ok show ?thesis by (auto simp: Let_def)
      qed
    qed
  qed
qed

lemma set_config_unsafe_result:
  "set_config_unsafe env config s = Some (st, s', evs) \<Longrightarrow>
   (st = status_no_error \<and> m_device_manager s' \<noteq> None \<and>
    set (m_cv_modules s') \<subseteq> dom (m_modules_configs s') \<and>
    m_cv_modules s' = m_cv_modules s \<and> m_current_state s' = m_current_state s \<and>
    m_samples_consumers s' = m_samples_consumers s) \<or>
   (st = status_match_not_found \<and> (s' = s \<or> s' = s\<lparr>m_device_manager := None\<rparr>)) \<or>
   (st = status_invalid_argument \<and> s' = s)"
  by (auto simp: set_config_unsafe_def split: if_splits Option.bind_splits
      dest!: try_supersets_result)

lemma create_modules_consumers_present:
  "set ps \<subseteq> dom mc \<Longrightarrow> fst (create_modules_consumers h ps mc) = mc"
proof (induction ps)
  case Nil
  then show ?case by simp
next
  case (Cons p ps)
  then have "fst (map_subscript mc p) = mc" by (simp add: map_subscript_present)
  with Cons show ?case by (auto simp: Let_def split: prod.splits)
qed

lemma start_configured_result:
  "start_configured env h s e = Returns (st, s', evs) \<Longrightarrow>
   set (m_cv_modules s) \<subseteq> dom (m_modules_configs s) \<Longrightarrow>
   m_device_manager s' \<noteq> None \<and> m_device_manager s' = m_device_manager s \<and>
   m_cv_modules s' = m_cv_modules s \<and> m_modules_configs s' = m_modules_configs s \<and>
   (m_current_state s' = m_current_state s \<or> m_current_state s' = streaming)"
  by (auto simp: start_configured_def Let_def create_modules_consumers_present
      split: option.splits if_splits)

lemma reachable_invariant:
  "reachable env s \<Longrightarrow>
   (m_current_state s = streaming \<longrightarrow> m_device_manager s \<noteq> None) \<and>
   (m_current_state s \<noteq> unconfigured \<longrightarrow> set (m_cv_modules s) \<subseteq> dom (m_modules_configs s)) \<and>
   (m_current_state s = unconfigured \<longrightarrow> m_device_manager s = None \<and> m_modules_configs s = Map.empty)"
proof (induction rule: reachable.induct)
  case reachable_new
  then show ?case by (simp add: new_pipeline_def)
next
  case (reachable_add_cv_module s cv_module st s')
  then show ?case
    by (cases "m_current_state s")
       (auto simp: add_cv_module_def split: option.splits if_splits)
next
  case (reachable_set_config s config st s' evs)
  show ?case
  proof (cases "m_current_state s = streaming")
    case True
    with reachable_set_config show ?thesis by (simp add: set_config_def)
  next
    case False
    with reachable_set_config.hyps(2) obtain s1 where
      u: "set_config_unsafe env config s = Some (st, s1, evs)"
      and s': "s' = (if st = status_no_error then s1\<lparr>m_current_state := configured\<rparr> else s1)"
      by (cases "m_current_state s") (auto simp: set_config_def split: Option.bind_splits)
    from set_config_unsafe_result [OF u] reachable_set_config.IH s' False show ?thesis
      by (cases "m_current_state s") auto
  qed
next
  case (reachable_start s handler st s' evs)
  show ?case
  proof (cases "m_current_state s")
    case unconfigured
    with reachable_start.hyps(2) obtain st1 s1 evs1 where
      u: "set_config_unsafe env zero_module_config s = Some (st1, s1, evs1)"
      and r: "if status_less st1 status_no_error then st = st1 \<and> s' = s1 \<and> evs = evs1
              else start_configured env handler (s1\<lparr>m_current_state := configured\<rparr>) evs1 = Returns (st, s', evs)"
      by (auto simp: start_def split: Option.bind_splits if_splits)
    from set_config_unsafe_result [OF u] consider
      (ok) "st1 = status_no_error" "m_device_manager s1 \<noteq> None"
           "set (m_cv_modules s1) \<subseteq> dom (m_modules_configs s1)"
      | (bad) "status_less st1 status_no_error" "s1 = s \<or> s1 = s\<lparr>m_device_manager := None\<rparr>"
      by (auto simp: status_less_def)
    then show ?thesis
    proof cases
      case ok
      with r have "start_configured env handler (s1\<lparr>m_current_state := configured\<rparr>) evs1 = Returns (st, s', evs)"
        by (simp add: status_less_def)
      from start_configured_result [OF this] ok show ?thesis by auto
    next
      case bad
      with r reachable_start.IH unconfigured show ?thesis by auto
    qed
  next
    case configured
    with reachable_start.hyps(2) have
      "start_configured env handler s [] = Returns (st, s', evs)"
      by (simp add: start_def)
    from start_configured_result [OF this] reachable_start.IH configured show ?thesis by auto
  next
    case streaming
    with reachable_start show ?thesis by (simp add: start_def)
  qed
next
  case (reachable_stop s st s' evs)
  then show ?case
    by (cases "m_current_state s") (auto simp: stop_def ordered_resources_reset_def)
next
  case (reachable_reset s st s' evs)
  then show ?case by (auto simp: reset_def ordered_resources_reset_def)
qed


subsection \<open>Configuring a configured pipeline again\<close>

text \<open>
  Two calls of \<^verbatim>\<open>set_config\<close> on the pipeline configured with the hardcoded
  configuration. The empty request is refused before any superset is generated: the
  committed device manager is still there, and the state is configured. The request for
  a camera that is not attached fails on its only superset: the committed device manager
  is destroyed, and the state is still configured, not unconfigured.
\<close>

theorem renegotiation_counterexample:
  "m_current_state committed_hardcoded = configured \<and>
   set_config camera_only zero_module_config committed_hardcoded
     = Some (status_invalid_argument, committed_hardcoded, []) \<and>
   m_device_manager committed_hardcoded
     = Some \<lparr>underlying_device = Some zr300, device_config = get_hardcoded_superset_config\<rparr> \<and>
   set_config camera_only absent_camera_config committed_hardcoded
     = Some (status_match_not_found, committed_hardcoded\<lparr>m_device_manager := None\<rparr>,
             [Destroy_device_manager \<lparr>underlying_device = Some zr300, device_config = get_hardcoded_superset_config\<rparr>,
              Construct_device_manager None absent_camera_config]) \<and>
   m_current_state (committed_hardcoded\<lparr>m_device_manager := None\<rparr>) = configured"
  by (simp add: set_config_empty_request set_config_absent_camera)
     (simp add: committed_hardcoded_def new_pipeline_def)

text \<open>
  C2, amended. For every \<^verbatim>\<open>set_config\<close> call made in the configured state that
  is not the empty request without modules, and for which the generator produces at least
  one superset, the committed device manager is destroyed before the device manager of
  the first superset is constructed: these are the first two calls the negotiation makes.
  If every superset fails, the call reports that no match was found and the pipeline has
  no device manager. (The modules' enumerations end. Nothing is said here of the
  lifecycle state after the failure.)
\<close>

theorem renegotiation_discards_device_first:
  assumes "m_current_state s = configured"
      and "m_device_manager s = Some committed"
      and "\<forall>p \<in> set (m_cv_modules s). \<exists>n. enumeration_ends_at (module_at env p) n"
      and "\<not> (is_config_empty config \<and> m_cv_modules s = [])"
      and "pull_the_modules_configurations env (m_cv_modules s) = Some groups"
      and "generete_matching_supersets env (groups @ [[config]]) = x # rest"
  shows "\<exists>st s' tail.
           set_config env config s =
             Some (st, s',
                   Destroy_device_manager committed
                     # Construct_device_manager (get_device_from_config env x) x # tail) \<and>
           ((\<forall>y \<in> set (x # rest). \<not> superset_accepted env (m_cv_modules s) y) \<longrightarrow>
              st = status_match_not_found \<and> m_device_manager s' = None)"
proof -
  let ?acc = "superset_accepted env (m_cv_modules s)"
  have u: "set_config_unsafe env config s = try_supersets env config (x # rest) s"
    using assms(4,5,6) by (auto simp: set_config_unsafe_def)
  show ?thesis
  proof (cases "\<exists>y \<in> set (x # rest). ?acc y")
    case False
    then have "\<forall>y \<in> set (x # rest). \<not> ?acc y" by blast
    from try_supersets_none_accepted [OF assms(3) this, of config] obtain evs tail where
      "try_supersets env config (x # rest) s =
         Some (status_match_not_found, s\<lparr>m_device_manager := None\<rparr>, evs)"
      "evs = Destroy_device_manager committed
               # Construct_device_manager (get_device_from_config env x) x # tail"
      using assms(2) by auto
    with u assms(1) show ?thesis by (simp add: set_config_def)
  next
    case True
    then obtain pre z post where
      sp: "x # rest = pre @ z # post" and z: "?acc z" and pre: "\<forall>y \<in> set pre. \<not> ?acc y"
      using split_list_first_prop [of "x # rest" ?acc] by blast
    from sp have hd: "hd (pre @ [z]) = x" by (cases pre) auto
    from try_supersets_first_accepted [OF assms(3) pre z, of config post] obtain evs mc tail where
      "try_supersets env config (pre @ z # post) s =
         Some (status_no_error,
               s\<lparr>m_modules_configs := mc,
                  m_device_manager := Some \<lparr>underlying_device = get_device_from_config env z, device_config = z\<rparr>,
                  m_user_requested_time_sync_mode := samples_time_sync_mode config\<rparr>,
               evs)"
      "evs = Destroy_device_manager committed
               # Construct_device_manager (get_device_from_config env x) x # tail"
      using assms(2) hd by auto
    with u sp assms(1) True show ?thesis by (simp add: set_config_def)
  qed
qed

theorem renegotiation_discards_device_first_witness:
  "\<exists>s' tail.
     set_config camera_only absent_camera_config committed_hardcoded =
       Some (status_match_not_found, s',
             Destroy_device_manager \<lparr>underlying_device = Some zr300, device_config = get_hardcoded_superset_config\<rparr>
               # Construct_device_manager None absent_camera_config # tail) \<and>
     m_device_manager s' = None"
proof -
  let ?s = committed_hardcoded
  have h1: "m_current_state ?s = configured"
    and h2: "m_device_manager ?s = Some \<lparr>underlying_device = Some zr300, device_config = get_hardcoded_superset_config\<rparr>"
    and m: "m_cv_modules ?s = []"
    by (simp_all add: committed_hardcoded_def new_pipeline_def)
  have h3: "\<forall>p \<in> set (m_cv_modules ?s). \<exists>n. enumeration_ends_at (module_at camera_only p) n"
    by (simp add: m)
  have h4: "\<not> (is_config_empty absent_camera_config \<and> m_cv_modules ?s = [])" by simp
  have h5: "pull_the_modules_configurations camera_only (m_cv_modules ?s) = Some []"
    by (simp add: m)
  have h6: "generete_matching_supersets camera_only ([] @ [[absent_camera_config]]) = absent_camera_config # []"
    by (simp add: camera_only_def)
  have rej: "\<forall>y \<in> set [absent_camera_config]. \<not> superset_accepted camera_only (m_cv_modules ?s) y"
    by (simp add: superset_accepted_def camera_only_def)
  have d: "get_device_from_config camera_only absent_camera_config = None"
    by (simp add: camera_only_def)
  from renegotiation_discards_device_first [OF h1 h2 h3 h4 h5 h6] rej
  show ?thesis unfolding d by blast
qed

text \<open>
  C3. The invariant of the data model does not hold in every reachable state. Configure
  a new pipeline with the hardcoded configuration, then ask for a camera that is not
  attached: the second call returns no-match and leaves the state configured with no
  device manager. A call of \<^verbatim>\<open>start\<close> in that state stops at the assertion
  \<^verbatim>\<open>m_device_manager != nullptr\<close>, "on configured state the device manager must
  exist".
\<close>

theorem failed_renegotiation_breaks_invariant:
  "reachable camera_only (committed_hardcoded\<lparr>m_device_manager := None\<rparr>) \<and>
   m_current_state (committed_hardcoded\<lparr>m_device_manager := None\<rparr>) = configured \<and>
   m_device_manager (committed_hardcoded\<lparr>m_device_manager := None\<rparr>) = None \<and>
   \<not> device_and_configs_iff_configured (committed_hardcoded\<lparr>m_device_manager := None\<rparr>) \<and>
   start camera_only None (committed_hardcoded\<lparr>m_device_manager := None\<rparr>) = Some Assertion_fails"
proof -
  have r1: "reachable camera_only committed_hardcoded"
    by (rule reachable_set_config [OF reachable_new set_config_hardcoded])
  have r2: "reachable camera_only (committed_hardcoded\<lparr>m_device_manager := None\<rparr>)"
    by (rule reachable_set_config [OF r1 set_config_absent_camera])
  show ?thesis
    using r2
    by (simp add: device_and_configs_iff_configured_def start_def start_configured_def
        committed_hardcoded_def new_pipeline_def)
qed

subsection \<open>Stopping\<close>

text \<open>
  C8. In every reachable state, \<^verbatim>\<open>stop\<close> succeeds in the streaming state only.
  In another state it returns invalid-state, calls nothing and changes nothing. In the
  streaming state it runs the ordered teardown and moves to configured; of the members
  only the consumer list and the state change, so the committed device manager and the
  module configurations are the ones before the call, and
  \<^verbatim>\<open>query_current_config\<close> succeeds afterwards with the configuration of that
  device manager.
\<close>

theorem stop_keeps_the_configuration:
  assumes "reachable env s"
  shows "(m_current_state s = streaming \<longrightarrow>
            (\<exists>dm. m_device_manager s = Some dm \<and>
               stop s = (status_no_error,
                         s\<lparr>m_samples_consumers := [], m_current_state := configured\<rparr>,
                         ordered_teardown_steps (m_samples_consumers s) (m_cv_modules s) (Some dm)) \<and>
               query_current_config env (fst (snd (stop s)))
                 = (status_no_error, Some (device_query_current_config env dm)))) \<and>
         (m_current_state s \<noteq> streaming \<longrightarrow> stop s = (status_invalid_state, s, []))"
proof (cases "m_current_state s = streaming")
  case True
  with reachable_invariant [OF assms] obtain dm where "m_device_manager s = Some dm" by auto
  with True show ?thesis
    by (simp add: stop_def ordered_resources_reset_def ordered_teardown_steps_def
        query_current_config_def)
next
  case False
  then show ?thesis by (cases "m_current_state s") (simp_all add: stop_def)
qed

theorem stop_keeps_the_configuration_witness:
  "stop streaming_hardcoded
     = (status_no_error, committed_hardcoded,
        [Clear_samples_consumers [],
         Device_stop \<lparr>underlying_device = Some zr300, device_config = get_hardcoded_superset_config\<rparr>]) \<and>
   fst (query_current_config camera_only (fst (snd (stop streaming_hardcoded)))) = status_no_error \<and>
   stop committed_hardcoded = (status_invalid_state, committed_hardcoded, [])"
proof -
  have r1: "reachable camera_only committed_hardcoded"
    by (rule reachable_set_config [OF reachable_new set_config_hardcoded])
  have r2: "reachable camera_only streaming_hardcoded"
    by (rule reachable_start [OF r1 start_committed_hardcoded])
  have a: "m_current_state streaming_hardcoded = streaming"
    and b: "m_current_state committed_hardcoded \<noteq> streaming"
    by (simp_all add: streaming_hardcoded_def committed_hardcoded_def new_pipeline_def)
  from stop_keeps_the_configuration [OF r2] stop_keeps_the_configuration [OF r1] a b
  show ?thesis
    by (auto simp: streaming_hardcoded_def committed_hardcoded_def new_pipeline_def
        ordered_teardown_steps_def)
qed

subsection \<open>A device that fails to start\<close>

text \<open>
  C10. In a reachable configured state with a committed device manager whose
  \<^verbatim>\<open>start\<close> throws, \<^verbatim>\<open>start\<close> returns device-failure after the one
  call on the device, and the pipeline is exactly as before the call: the state is
  configured, the device manager and the module configurations are unchanged, and the
  consumer list is the one before the call, the consumers just built being dropped.
\<close>

theorem failed_device_start_changes_nothing:
  assumes "reachable env s"
      and "m_current_state s = configured"
      and "m_device_manager s = Some dm"
      and "device_start_throws env dm"
  shows "start env handler s = Some (Returns (status_device_failed, s, [Device_start dm]))"
proof -
  from reachable_invariant [OF assms(1)] assms(2)
  have "set (m_cv_modules s) \<subseteq> dom (m_modules_configs s)" by simp
  then have "fst (create_modules_consumers handler (m_cv_modules s) (m_modules_configs s))
               = m_modules_configs s"
    by (rule create_modules_consumers_present)
  with assms(2,3,4) show ?thesis
    by (simp add: start_def start_configured_def Let_def)
qed

lemma set_config_hardcoded_failing_start:
  "set_config camera_failing_to_start get_hardcoded_superset_config new_pipeline =
     Some (status_no_error, committed_hardcoded,
           [Construct_device_manager (Some zr300) get_hardcoded_superset_config])"
  by (simp add: set_config_def set_config_unsafe_def camera_failing_to_start_def
      committed_hardcoded_def new_pipeline_def status_less_def Let_def)

theorem failed_device_start_changes_nothing_witness:
  "start camera_failing_to_start (Some 7) committed_hardcoded =
     Some (Returns (status_device_failed, committed_hardcoded,
                    [Device_start \<lparr>underlying_device = Some zr300, device_config = get_hardcoded_superset_config\<rparr>]))"
proof -
  have r: "reachable camera_failing_to_start committed_hardcoded"
    by (rule reachable_set_config [OF reachable_new set_config_hardcoded_failing_start])
  show ?thesis
    by (rule failed_device_start_changes_nothing [OF r])
       (simp_all add: committed_hardcoded_def new_pipeline_def camera_failing_to_start_def)
qed

subsection \<open>The superset the negotiation commits\<close>

lemma ended_prefix:
  assumes "enumeration_ends_at m n"
  shows "k < n \<longleftrightarrow> (\<forall>j \<le> k. \<not> status_less (fst (query_supported_module_config m j)) status_no_error)"
proof
  assume "k < n"
  with assms show "\<forall>j \<le> k. \<not> status_less (fst (query_supported_module_config m j)) status_no_error"
    by (simp add: enumeration_ends_at_def)
next
  assume a: "\<forall>j \<le> k. \<not> status_less (fst (query_supported_module_config m j)) status_no_error"
  show "k < n"
  proof (rule ccontr)
    assume "\<not> k < n"
    then have "n \<le> k" by simp
    with a have "\<not> status_less (fst (query_supported_module_config m n)) status_no_error" by blast
    with assms show False by (simp add: enumeration_ends_at_def)
  qed
qed

lemma matcher_first_candidate:
  assumes "enumeration_ends_at m n"
  shows "is_there_a_satisfying_module_config m x = Some (Some c) \<longleftrightarrow>
           (\<exists>k. (\<forall>j \<le> k. \<not> status_less (fst (query_supported_module_config m j)) status_no_error) \<and>
                c = snd (query_supported_module_config m k) \<and>
                satisfies_superset (snd (query_supported_module_config m k)) x \<and>
                (\<forall>j < k. \<not> satisfies_superset (snd (query_supported_module_config m j)) x))"
proof -
  let ?cs = "declared_configs m 0 n"
  have sat: "config_is_satisfying x c = satisfies_superset c x" for c
    by (simp add: config_is_satisfying_iff satisfies_superset_def)
  have len: "length ?cs = n" by (simp add: declared_configs_def)
  have nth: "k < n \<Longrightarrow> ?cs ! k = snd (query_supported_module_config m k)" for k
    by (simp add: declared_configs_def)
  have m: "is_there_a_satisfying_module_config m x = Some (find (config_is_satisfying x) ?cs)"
    by (rule matcher_of_ended_enumeration [OF assms])
  show ?thesis
  proof
    assume "is_there_a_satisfying_module_config m x = Some (Some c)"
    with m have "find (config_is_satisfying x) ?cs = Some c" by simp
    then obtain k where k: "k < n" "satisfies_superset (?cs ! k) x" "c = ?cs ! k"
        "\<forall>j < k. \<not> satisfies_superset (?cs ! j) x"
      unfolding find_Some_iff len sat by blast
    from k(1) have pre: "\<forall>j \<le> k. \<not> status_less (fst (query_supported_module_config m j)) status_no_error"
      by (simp add: ended_prefix [OF assms])
    from k pre show "\<exists>k. (\<forall>j \<le> k. \<not> status_less (fst (query_supported_module_config m j)) status_no_error) \<and>
                c = snd (query_supported_module_config m k) \<and>
                satisfies_superset (snd (query_supported_module_config m k)) x \<and>
                (\<forall>j < k. \<not> satisfies_superset (snd (query_supported_module_config m j)) x)"
      by (intro exI [of _ k]) (simp add: nth)
  next
    assume "\<exists>k. (\<forall>j \<le> k. \<not> status_less (fst (query_supported_module_config m j)) status_no_error) \<and>
                c = snd (query_supported_module_config m k) \<and>
                satisfies_superset (snd (query_supported_module_config m k)) x \<and>
                (\<forall>j < k. \<not> satisfies_superset (snd (query_supported_module_config m j)) x)"
    then obtain k where
      pre: "\<forall>j \<le> k. \<not> status_less (fst (query_supported_module_config m j)) status_no_error"
      and k: "c = snd (query_supported_module_config m k)"
        "satisfies_superset (snd (query_supported_module_config m k)) x"
        "\<forall>j < k. \<not> satisfies_superset (snd (query_supported_module_config m j)) x"
      by blast
    from pre have kn: "k < n" by (simp add: ended_prefix [OF assms])
    have "find (config_is_satisfying x) ?cs = Some c"
      unfolding find_Some_iff len sat using kn k by (intro exI [of _ k]) (simp add: nth)
    with m show "is_there_a_satisfying_module_config m x = Some (Some c)" by simp
  qed
qed

lemma negotiable_iff_accepted:
  assumes "\<forall>p \<in> set ps. \<exists>n. enumeration_ends_at (module_at env p) n"
  shows "superset_negotiable env ps x \<longleftrightarrow> superset_accepted env ps x"
proof -
  let ?dm = "\<lparr>underlying_device = get_device_from_config env x, device_config = x\<rparr>"
  let ?ok = "\<lambda>p c. \<not> status_less (set_module_config (module_at env p)
                 (create_actual_config_from_supported_config env ?dm c)) status_no_error"
  have each: "(\<exists>k. (\<forall>j \<le> k. \<not> status_less (fst (query_supported_module_config (module_at env p) j)) status_no_error) \<and>
                satisfies_superset (snd (query_supported_module_config (module_at env p) k)) x \<and>
                (\<forall>j < k. \<not> satisfies_superset (snd (query_supported_module_config (module_at env p) j)) x) \<and>
                ?ok p (snd (query_supported_module_config (module_at env p) k)))
          \<longleftrightarrow> (\<exists>c. is_there_a_satisfying_module_config (module_at env p) x = Some (Some c) \<and> ?ok p c)"
    if "p \<in> set ps" for p
  proof -
    from that assms obtain n where n: "enumeration_ends_at (module_at env p) n" by blast
    show ?thesis unfolding matcher_first_candidate [OF n] by blast
  qed
  show ?thesis
    unfolding superset_negotiable_def superset_accepted_def using each by blast
qed

text \<open>
  C6, amended. Whatever sequence of supersets the generator produces for the groups
  pulled from the registered modules and the caller's restriction, the negotiation
  commits the first superset of the sequence for which the device manager is
  constructed, every registered module declares a candidate that satisfies the superset
  as the matcher of the code checks it (the superset names no device or the device of
  the candidate, and the candidate's streams and motion sensors are covered), and every
  module takes the actual configuration made of its first such candidate. The call
  returns success; the committed device manager is the one constructed for that
  superset, and every module is associated with the actual configuration made of its
  first satisfying candidate. The supersets tried are those up to the committed one, in
  the order of the generator: none after it is tried. (The modules' enumerations end,
  and the request is not the empty request without modules, which is refused before any
  superset is generated.)
\<close>

theorem negotiation_commits_first_negotiable_superset:
  assumes "\<forall>p \<in> set (m_cv_modules s). \<exists>n. enumeration_ends_at (module_at env p) n"
      and "\<not> (is_config_empty config \<and> m_cv_modules s = [])"
      and "pull_the_modules_configurations env (m_cv_modules s) = Some groups"
      and "generete_matching_supersets env (groups @ [[config]]) = pre @ x # post"
      and "\<forall>y \<in> set pre. \<not> superset_negotiable env (m_cv_modules s) y"
      and "superset_negotiable env (m_cv_modules s) x"
  shows "\<exists>evs mc. set_config_unsafe env config s =
           Some (status_no_error,
                 s\<lparr>m_modules_configs := mc,
                    m_device_manager := Some \<lparr>underlying_device = get_device_from_config env x, device_config = x\<rparr>,
                    m_user_requested_time_sync_mode := samples_time_sync_mode config\<rparr>,
                 evs) \<and>
         attempted_supersets evs = pre @ [x] \<and>
         dom mc = set (m_cv_modules s) \<and>
         (\<forall>p \<in> set (m_cv_modules s). \<exists>k.
            satisfies_superset (snd (query_supported_module_config (module_at env p) k)) x \<and>
            (\<forall>j < k. \<not> satisfies_superset (snd (query_supported_module_config (module_at env p) j)) x) \<and>
            mc p = Some (create_actual_config_from_supported_config env
                           \<lparr>underlying_device = get_device_from_config env x, device_config = x\<rparr>
                           (snd (query_supported_module_config (module_at env p) k)),
                         async_processing (snd (query_supported_module_config (module_at env p) k)),
                         samples_time_sync_mode (snd (query_supported_module_config (module_at env p) k))))"
proof -
  let ?ps = "m_cv_modules s"
  let ?dm = "\<lparr>underlying_device = get_device_from_config env x, device_config = x\<rparr>"
  have u: "set_config_unsafe env config s = try_supersets env config (pre @ x # post) s"
    using assms(2,3,4) by (auto simp: set_config_unsafe_def)
  from assms(5) have rej: "\<forall>y \<in> set pre. \<not> superset_accepted env ?ps y"
    by (simp add: negotiable_iff_accepted [OF assms(1)])
  from assms(6) have acc: "superset_accepted env ?ps x"
    by (simp add: negotiable_iff_accepted [OF assms(1)])
  from try_supersets_first_accepted [OF assms(1) rej acc, of config post] obtain evs mc where
    r: "try_supersets env config (pre @ x # post) s =
          Some (status_no_error,
                s\<lparr>m_modules_configs := mc, m_device_manager := Some ?dm,
                   m_user_requested_time_sync_mode := samples_time_sync_mode config\<rparr>,
                evs)"
    and att: "attempted_supersets evs = pre @ [x]"
    and d: "dom mc = set ?ps"
    and each: "\<forall>p \<in> set ?ps. \<exists>c.
            is_there_a_satisfying_module_config (module_at env p) x = Some (Some c) \<and>
            mc p = Some (create_actual_config_from_supported_config env ?dm c,
                         async_processing c, samples_time_sync_mode c)"
    by blast
  have first: "\<forall>p \<in> set ?ps. \<exists>k.
            satisfies_superset (snd (query_supported_module_config (module_at env p) k)) x \<and>
            (\<forall>j < k. \<not> satisfies_superset (snd (query_supported_module_config (module_at env p) j)) x) \<and>
            mc p = Some (create_actual_config_from_supported_config env ?dm
                           (snd (query_supported_module_config (module_at env p) k)),
                         async_processing (snd (query_supported_module_config (module_at env p) k)),
                         samples_time_sync_mode (snd (query_supported_module_config (module_at env p) k)))"
  proof
    fix p assume p: "p \<in> set ?ps"
    with assms(1) obtain n where n: "enumeration_ends_at (module_at env p) n" by blast
    from each p obtain c where
      c: "is_there_a_satisfying_module_config (module_at env p) x = Some (Some c)"
      and mc: "mc p = Some (create_actual_config_from_supported_config env ?dm c,
                         async_processing c, samples_time_sync_mode c)"
      by blast
    from c obtain k where
      "c = snd (query_supported_module_config (module_at env p) k)"
      "satisfies_superset (snd (query_supported_module_config (module_at env p) k)) x"
      "\<forall>j < k. \<not> satisfies_superset (snd (query_supported_module_config (module_at env p) j)) x"
      unfolding matcher_first_candidate [OF n] by blast
    with mc show "\<exists>k.
            satisfies_superset (snd (query_supported_module_config (module_at env p) k)) x \<and>
            (\<forall>j < k. \<not> satisfies_superset (snd (query_supported_module_config (module_at env p) j)) x) \<and>
            mc p = Some (create_actual_config_from_supported_config env ?dm
                           (snd (query_supported_module_config (module_at env p) k)),
                         async_processing (snd (query_supported_module_config (module_at env p) k)),
                         samples_time_sync_mode (snd (query_supported_module_config (module_at env p) k)))"
      by (intro exI [of _ k]) simp
  qed
  show ?thesis
    unfolding u r by (intro exI [of _ evs] exI [of _ mc] conjI refl att d first)
qed

subsection \<open>Negotiations in the example installation\<close>

lemma merge_depth_only:
  "merge_configs (vga_depth_only a r) (vga_depth_only b q) =
     (if (a \<noteq> [] \<and> b \<noteq> [] \<and> a \<noteq> b) \<or> \<not> (r = q \<or> r = 0 \<or> q = 0) then None
      else Some (vga_depth_only (if a = [] then b else a) (if r = 0 then q else r)))"
proof -
  have z: "merge_image_streams zero_image_stream_config zero_image_stream_config = Some zero_image_stream_config"
          "merge_motion_sensors zero_motion_sensor_config zero_motion_sensor_config = Some zero_motion_sensor_config"
    by (simp_all add: merge_image_streams_def merge_motion_sensors_def
        zero_image_stream_config_def zero_motion_sensor_config_def)
  have f: "(\<lambda>s. case merge_image_streams
                    (((\<lambda>_. zero_image_stream_config)
                       (depth := \<lparr>width = 640, height = 480, frame_rate = r, flags = 0, is_enabled = True\<rparr>)) s)
                    (((\<lambda>_. zero_image_stream_config)
                       (depth := \<lparr>width = 640, height = 480, frame_rate = q, flags = 0, is_enabled = True\<rparr>)) s)
              of Some c \<Rightarrow> c
               | None \<Rightarrow> ((\<lambda>_. zero_image_stream_config)
                       (depth := \<lparr>width = 640, height = 480, frame_rate = r, flags = 0, is_enabled = True\<rparr>)) s)
           = (\<lambda>_. zero_image_stream_config)
               (depth := \<lparr>width = 640, height = 480, frame_rate = (if r = 0 then q else r), flags = 0, is_enabled = True\<rparr>)"
    if "r = q \<or> r = 0 \<or> q = 0"
  proof
    fix s show "(case merge_image_streams
                    (((\<lambda>_. zero_image_stream_config)
                       (depth := \<lparr>width = 640, height = 480, frame_rate = r, flags = 0, is_enabled = True\<rparr>)) s)
                    (((\<lambda>_. zero_image_stream_config)
                       (depth := \<lparr>width = 640, height = 480, frame_rate = q, flags = 0, is_enabled = True\<rparr>)) s)
              of Some c \<Rightarrow> c
               | None \<Rightarrow> ((\<lambda>_. zero_image_stream_config)
                       (depth := \<lparr>width = 640, height = 480, frame_rate = r, flags = 0, is_enabled = True\<rparr>)) s)
           = ((\<lambda>_. zero_image_stream_config)
               (depth := \<lparr>width = 640, height = 480, frame_rate = (if r = 0 then q else r), flags = 0, is_enabled = True\<rparr>)) s"
      using that by (cases s) (auto simp: z merge_image_streams_def)
  qed
  show ?thesis
    by (auto simp: merge_configs_def vga_depth_only_def zero_module_config_def stream_types_def
        motion_types_def z f merge_image_streams_def)
qed


lemma mapper_ends: "enumeration_ends_at mapper (Suc (Suc (Suc 0)))"
  using ends_declaring [of "[vga_depth_only ''D400'' 30, vga_depth_only [] 30, vga_depth_only [] 0]"]
  by (simp add: mapper_def)

lemma mapper_configs:
  "query_module_configs_from mapper 0 [] =
     Some [vga_depth_only ''D400'' 30, vga_depth_only [] 30, vga_depth_only [] 0]"
  using query_configs_from_ends [OF mapper_ends, of 0 "[]"]
        declared_declaring [of "[vga_depth_only ''D400'' 30, vga_depth_only [] 30, vga_depth_only [] 0]"]
  by (simp add: mapper_def)

lemma satisfies_depth_only:
  "satisfies_superset (vga_depth_only a r) (vga_depth_only b q) \<longleftrightarrow> (b = [] \<or> b = a) \<and> (r = q \<or> r = 0)"
  by (simp add: satisfies_superset_def covered_depth_only name_depth_only)

theorem negotiation_commits_first_negotiable_superset_witness:
  "\<exists>evs mc. set_config_unsafe with_mapper (vga_depth_only [] 30) (new_pipeline\<lparr>m_cv_modules := [1]\<rparr>) =
           Some (status_no_error,
                 new_pipeline
                   \<lparr>m_cv_modules := [1],
                    m_modules_configs := mc,
                    m_device_manager :=
                      Some \<lparr>underlying_device = Some zr300, device_config = vga_depth_only [] 30\<rparr>,
                    m_user_requested_time_sync_mode := time_synced_input_only\<rparr>,
                 evs) \<and>
         attempted_supersets evs = [vga_depth_only ''D400'' 30, vga_depth_only [] 30] \<and>
         generete_matching_supersets with_mapper
              ([[vga_depth_only ''D400'' 30, vga_depth_only [] 30, vga_depth_only [] 0]]
                 @ [[vga_depth_only [] 30]])
              = [vga_depth_only ''D400'' 30, vga_depth_only [] 30, vga_depth_only [] 30]"
proof -
  let ?s = "new_pipeline\<lparr>m_cv_modules := [1]\<rparr>"
  have h1: "\<forall>p \<in> set (m_cv_modules ?s). \<exists>n. enumeration_ends_at (module_at with_mapper p) n"
    using mapper_ends by (auto simp: with_mapper_def)
  have h2: "\<not> (is_config_empty (vga_depth_only [] 30) \<and> m_cv_modules ?s = [])"
    by simp
  have h3: "pull_the_modules_configurations with_mapper (m_cv_modules ?s)
              = Some [[vga_depth_only ''D400'' 30, vga_depth_only [] 30, vga_depth_only [] 0]]"
    by (simp add: with_mapper_def mapper_configs)
  have h4: "generete_matching_supersets with_mapper
              ([[vga_depth_only ''D400'' 30, vga_depth_only [] 30, vga_depth_only [] 0]]
                 @ [[vga_depth_only [] 30]])
              = [vga_depth_only ''D400'' 30] @ vga_depth_only [] 30 # [vga_depth_only [] 30]"
    by (simp add: with_mapper_def one_of_each_group_def merge_depth_only)
  have h5: "\<forall>y \<in> set [vga_depth_only ''D400'' 30]. \<not> superset_negotiable with_mapper (m_cv_modules ?s) y"
    by (simp add: superset_negotiable_def with_mapper_def name_depth_only)
  have q0: "query_supported_module_config mapper 0 = (status_no_error, vga_depth_only ''D400'' 30)"
    by (simp add: mapper_def module_declaring_def)
  have h6: "superset_negotiable with_mapper (m_cv_modules ?s) (vga_depth_only [] 30)"
    unfolding superset_negotiable_def
    by (simp add: with_mapper_def name_depth_only)
       (rule exI [of _ 0], simp add: q0 satisfies_depth_only status_less_def mapper_def module_declaring_def)
  from negotiation_commits_first_negotiable_superset [OF h1 h2 h3 h4 h5 h6] h4
  show ?thesis
    by (simp add: with_mapper_def name_depth_only vga_depth_only_def zero_module_config_def) blast
qed

text \<open>
  One camera, a module that declares depth at any rate for any device and takes every
  configuration, and a request for depth at 30 frames on that camera. The only superset
  is the request. In the words of the specification it is accepted: the camera is
  acquired, the module's candidate has an empty device-name filter and its depth stream
  is covered, and the module would take the configuration. The negotiation constructs
  the device manager, finds no satisfying configuration for the module, because the
  superset names a device and the candidate names none, and reports that no match was
  found.
\<close>

theorem negotiation_counterexample:
  "pull_the_modules_configurations with_any_device_module [1] = Some [[vga_depth_only [] 0]] \<and>
   generete_matching_supersets with_any_device_module
     ([[vga_depth_only [] 0]] @ [[vga_depth_only ''Intel RealSense ZR300'' 30]])
     = [vga_depth_only ''Intel RealSense ZR300'' 30] \<and>
   superset_accepted_of_the_spec with_any_device_module [1] (vga_depth_only ''Intel RealSense ZR300'' 30) \<and>
   set_config_unsafe with_any_device_module (vga_depth_only ''Intel RealSense ZR300'' 30)
       (new_pipeline\<lparr>m_cv_modules := [1]\<rparr>)
     = Some (status_match_not_found, new_pipeline\<lparr>m_cv_modules := [1]\<rparr>,
             [Construct_device_manager (Some zr300) (vga_depth_only ''Intel RealSense ZR300'' 30),
              Destroy_device_manager
                \<lparr>underlying_device = Some zr300,
                 device_config = vga_depth_only ''Intel RealSense ZR300'' 30\<rparr>])"
proof -
  let ?m = "module_declaring [vga_depth_only [] 0]"
  let ?x = "vga_depth_only ''Intel RealSense ZR300'' 30"
  have e: "enumeration_ends_at ?m (Suc 0)"
    using ends_declaring [of "[vga_depth_only [] 0]"] by simp
  have d: "declared_configs ?m 0 (Suc 0) = [vga_depth_only [] 0]"
    using declared_declaring [of "[vga_depth_only [] 0]"] by simp
  have c: "query_module_configs_from ?m 0 [] = Some [vga_depth_only [] 0]"
    using query_configs_from_ends [OF e, of 0 "[]"] d by simp
  have p: "pull_the_modules_configurations with_any_device_module [1] = Some [[vga_depth_only [] 0]]"
    by (simp add: with_any_device_module_def c)
  have g: "generete_matching_supersets with_any_device_module ([[vga_depth_only [] 0]] @ [[?x]]) = [?x]"
    by (simp add: with_any_device_module_def one_of_each_group_def merge_depth_only)
  have t: "set_module_config ?m actual = status_no_error" for actual
    by (simp add: module_declaring_def)
  have a: "superset_accepted_of_the_spec with_any_device_module [1] ?x"
    unfolding superset_accepted_of_the_spec_def
    apply (simp add: with_any_device_module_def name_depth_only)
    apply (rule exI [of _ "Suc 0"])
    apply (simp add: e d t satisfying_config_of_the_spec_def device_name_condition_of_the_spec_def
        name_depth_only covered_depth_only status_less_def)
    done
  have m: "is_there_a_satisfying_module_config ?m ?x = Some None"
    by (simp add: matcher_of_module_declaring satisfying_depth_only)
  have r: "set_config_unsafe with_any_device_module ?x (new_pipeline\<lparr>m_cv_modules := [1]\<rparr>)
     = Some (status_match_not_found, new_pipeline\<lparr>m_cv_modules := [1]\<rparr>,
             [Construct_device_manager (Some zr300) ?x,
              Destroy_device_manager \<lparr>underlying_device = Some zr300, device_config = ?x\<rparr>])"
    using g
    by (simp add: set_config_unsafe_def with_any_device_module_def c m name_depth_only
        new_pipeline_def Let_def)
  from p g a r show ?thesis by (intro conjI)
qed

end
